theory Spec2Isabelle
  imports Main "HOL-Library.Word" "HOL-Library.Multiset"
begin

section \<open>Conventions of the embedding\<close>

text \<open>
  The plugins are written in Go. A Go \<open>string\<close> and a \<open>[]byte\<close> are byte sequences:
  strings are modelled as \<open>string\<close> (whose characters are bytes) and packets as lists of
  8-bit words. An \<open>error\<close> is the message it carries; a \<open>nil\<close> error is \<open>None\<close>, and a
  function that returns \<open>(value, error)\<close> with exactly one of the two set returns a sum,
  \<open>Inl\<close> carrying the error.

  A Go map is a partial function. The language leaves the order in which \<open>range\<close> visits
  the entries of a map unspecified, and the runtime varies it from one loop to the next;
  so every \<open>range\<close> over a map takes the list of keys in the order this loop happens to
  visit them. \<open>rangeOrder m ks\<close> says that \<open>ks\<close> is such an order for \<open>m\<close>: each key of
  \<open>m\<close> once, and nothing else.
\<close>

type_synonym byte = "8 word"
type_synonym error = string

definition rangeOver :: "('k \<rightharpoonup> 'v) \<Rightarrow> 'k list \<Rightarrow> ('k \<times> 'v) list" where
  "rangeOver m ks =
     List.map_filter (\<lambda>k. case m k of None \<Rightarrow> None | Some v \<Rightarrow> Some (k, v)) ks"

definition rangeOrder :: "('k \<rightharpoonup> 'v) \<Rightarrow> 'k list \<Rightarrow> bool" where
  "rangeOrder m ks \<longleftrightarrow> distinct ks \<and> set ks = dom m"

section \<open>Client identifiers\<close>

text \<open>
  \<^verbatim>\<open>
  func generateClientID(containerID string, netName string, ifName string) string {
      clientID := containerID + "/" + netName + "/" + ifName
      if len(clientID) > 254 {
          clientID = clientID[0:254]
      }
      return clientID
  }
  \<close>
\<close>

definition generateClientID :: "string \<Rightarrow> string \<Rightarrow> string \<Rightarrow> string" where
  "generateClientID containerID netName ifName =
     (let clientID = containerID @ ''/'' @ netName @ ''/'' @ ifName
      in if length clientID > 254 then take 254 clientID else clientID)"

section \<open>Packet exchange\<close>

type_synonym Packet = "byte list"
type_synonym OptionCode = byte
type_synonym Options = "OptionCode \<rightharpoonup> byte list"

subsection \<open>The packet library\<close>

text \<open>
  The helpers of the packet exchange call into the DHCP packet library
  (\<open>github.com/d2g/dhcp4\<close>), which is a dependency and not part of this repository. Its
  two operations on an outbound packet are modelled after the wire format they implement:
  a packet ends with the \<open>End\<close> option (255); \<open>AddOption\<close> removes that last byte, appends
  the option code, the length of the value as one byte, the value, and a new \<open>End\<close>;
  \<open>PadToMinSize\<close> appends zero bytes up to 272 bytes. \<open>AddOption\<close> on an empty packet
  slices out of range and panics, which is \<open>None\<close> here.
\<close>

definition End :: OptionCode where "End = 255"
definition OptionDHCPMessageType :: OptionCode where "OptionDHCPMessageType = 53"
definition ACK :: byte where "ACK = 5"

definition AddOption :: "OptionCode \<Rightarrow> byte list \<Rightarrow> Packet \<Rightarrow> Packet option" where
  "AddOption opt data p =
     (if p = [] then None
      else Some (butlast p @ [opt, of_nat (length data)] @ data @ [End]))"

definition PadToMinSize :: "Packet \<Rightarrow> Packet" where
  "PadToMinSize p = (if length p < 272 then p @ replicate (272 - length p) 0 else p)"

definition encodeOption :: "OptionCode \<times> byte list \<Rightarrow> byte list" where
  "encodeOption kv = [fst kv, of_nat (length (snd kv))] @ snd kv"

text \<open>
  The DHCP client (\<open>github.com/d2g/dhcp4client\<close>) builds the base packets and does the
  socket I/O. A \<open>Client\<close> value fixes what each of its calls returns in the run under
  consideration: the packets it builds, the error of a send, and the packet and error of
  a receive. \<open>ParseOptions\<close> is the library's decoder of a packet's options.
\<close>

record Client =
  DiscoverPacket :: Packet
  RequestPacket :: "Packet \<Rightarrow> Packet"
  SendPacket :: "Packet \<Rightarrow> error option"
  GetOffer :: "Packet \<Rightarrow> Packet \<times> error option"
  GetAcknowledgement :: "Packet \<Rightarrow> Packet \<times> error option"
  ParseOptions :: "Packet \<Rightarrow> Options"

subsection \<open>The helpers\<close>

text \<open>
  The loop \<^verbatim>\<open>for opt, data := range options { packet.AddOption(opt, data) }\<close>, over
  the entries in the order the loop visits them.
\<close>

fun addOptions :: "Packet \<Rightarrow> (OptionCode \<times> byte list) list \<Rightarrow> Packet option" where
  "addOptions p [] = Some p"
| "addOptions p ((opt, data) # rest) =
     (case AddOption opt data p of None \<Rightarrow> None | Some p' \<Rightarrow> addOptions p' rest)"

text \<open>
  \<^verbatim>\<open>
  func DhcpSendDiscoverPacket(c *dhcp4client.Client, options dhcp4.Options) (dhcp4.Packet, error) {
      discoveryPacket := c.DiscoverPacket()
      for opt, data := range options {
          discoveryPacket.AddOption(opt, data)
      }
      discoveryPacket.PadToMinSize()
      return discoveryPacket, c.SendPacket(discoveryPacket)
  }
  \<close>
  The result is \<open>None\<close> when the library panics.
\<close>

definition DhcpSendDiscoverPacket ::
  "Client \<Rightarrow> Options \<Rightarrow> OptionCode list \<Rightarrow> (Packet \<times> error option) option" where
  "DhcpSendDiscoverPacket c options ks =
     (case addOptions (DiscoverPacket c) (rangeOver options ks) of
        None \<Rightarrow> None
      | Some p \<Rightarrow>
          let discoveryPacket = PadToMinSize p
          in Some (discoveryPacket, SendPacket c discoveryPacket))"

text \<open>
  \<^verbatim>\<open>
  func DhcpSendRequest(c *dhcp4client.Client, options dhcp4.Options, offerPacket *dhcp4.Packet) (dhcp4.Packet, error) {
      requestPacket := c.RequestPacket(offerPacket)
      for opt, data := range options {
          requestPacket.AddOption(opt, data)
      }
      requestPacket.PadToMinSize()
      return requestPacket, c.SendPacket(requestPacket)
  }
  \<close>
\<close>

definition DhcpSendRequest ::
  "Client \<Rightarrow> Options \<Rightarrow> OptionCode list \<Rightarrow> Packet \<Rightarrow> (Packet \<times> error option) option" where
  "DhcpSendRequest c options ks offerPacket =
     (case addOptions (RequestPacket c offerPacket) (rangeOver options ks) of
        None \<Rightarrow> None
      | Some p \<Rightarrow>
          let requestPacket = PadToMinSize p
          in Some (requestPacket, SendPacket c requestPacket))"

text \<open>
  \<^verbatim>\<open>
  func DhcpRequest(c *dhcp4client.Client, options dhcp4.Options) (bool, dhcp4.Packet, error) {
      discoveryPacket, err := DhcpSendDiscoverPacket(c, options)
      if err != nil { return false, discoveryPacket, err }
      offerPacket, err := c.GetOffer(&discoveryPacket)
      if err != nil { return false, offerPacket, err }
      requestPacket, err := DhcpSendRequest(c, options, &offerPacket)
      if err != nil { return false, requestPacket, err }
      acknowledgement, err := c.GetAcknowledgement(&requestPacket)
      if err != nil { return false, acknowledgement, err }
      acknowledgementOptions := acknowledgement.ParseOptions()
      if dhcp4.MessageType(acknowledgementOptions[dhcp4.OptionDHCPMessageType][0]) != dhcp4.ACK {
          return false, acknowledgement, nil
      }
      return true, acknowledgement, nil
  }
  \<close>
  \<open>ks1\<close> and \<open>ks2\<close> are the orders of the two loops over \<open>options\<close>. Indexing byte 0 of a
  message-type option that is absent or empty panics (\<open>None\<close>).
\<close>

definition DhcpRequest ::
  "Client \<Rightarrow> Options \<Rightarrow> OptionCode list \<Rightarrow> OptionCode list
     \<Rightarrow> (bool \<times> Packet \<times> error option) option" where
  "DhcpRequest c options ks1 ks2 =
     (case DhcpSendDiscoverPacket c options ks1 of
        None \<Rightarrow> None
      | Some (discoveryPacket, Some err) \<Rightarrow> Some (False, discoveryPacket, Some err)
      | Some (discoveryPacket, None) \<Rightarrow>
          (case GetOffer c discoveryPacket of
             (offerPacket, Some err) \<Rightarrow> Some (False, offerPacket, Some err)
           | (offerPacket, None) \<Rightarrow>
               (case DhcpSendRequest c options ks2 offerPacket of
                  None \<Rightarrow> None
                | Some (requestPacket, Some err) \<Rightarrow> Some (False, requestPacket, Some err)
                | Some (requestPacket, None) \<Rightarrow>
                    (case GetAcknowledgement c requestPacket of
                       (acknowledgement, Some err) \<Rightarrow> Some (False, acknowledgement, Some err)
                     | (acknowledgement, None) \<Rightarrow>
                         (case ParseOptions c acknowledgement OptionDHCPMessageType of
                            None \<Rightarrow> None
                          | Some [] \<Rightarrow> None
                          | Some (t # _) \<Rightarrow>
                              if t \<noteq> ACK then Some (False, acknowledgement, None)
                              else Some (True, acknowledgement, None))))))"

section \<open>Leases and their environment\<close>

text \<open>
  A \<open>DHCPLease\<close> with the fields the daemon and the lease store read and write. The lease
  type itself, its acquisition and its maintainer live in a source file that is not part
  of the sources at hand; what they do is taken from the environment below. A
  \<open>time.Time\<close> is an instant and a \<open>time.Duration\<close> a length of time, both integers. A
  \<open>netlink.Link\<close> is a handle on an interface: its name (\<open>Attrs().Name\<close>) and index.
  A lease that reaches the registry has its link set: \<open>LoadSavedLeases\<close> returns a
  lease only after its link has been resolved, and the other leases come from
  \<open>AcquireLease\<close>. The channel \<open>stop\<close> of a lease is not a field here; closing it is
  the effect of \<open>Stop\<close>.
\<close>

type_synonym Time = int
type_synonym Duration = int

datatype Link = Link (AttrsName: string) (AttrsIndex: nat)

record DHCPLease =
  clientID :: string
  ack :: "Packet option"
  link :: Link
  renewalTime :: Time
  rebindingTime :: Time
  expireTime :: Time
  timeout :: Duration
  resendMax :: Duration
  broadcast :: bool
  k8sNamespace :: string
  k8sPodName :: string
  netNs :: string

text \<open>
  \<^verbatim>\<open>
  type PersistedLeased struct {
      ClientID      string
      Ack           *dhcp4.Packet
      LinkName      string
      RenewalTime   time.Time
      RebindingTime time.Time
      ExpireTime    time.Time
      K8sNamespace  string
      K8sPodName    string
      NetNs         string
  }
  \<close>
\<close>

record PersistedLeased =
  ClientID :: string
  Ack :: "Packet option"
  LinkName :: string
  RenewalTime :: Time
  RebindingTime :: Time
  ExpireTime :: Time
  K8sNamespace :: string
  K8sPodName :: string
  NetNs :: string

subsection \<open>Requests and results of the RPCs\<close>

type_synonym IP = "byte list"
type_synonym IPNet = "IP \<times> IP"
type_synonym Route = "IPNet \<times> IP"

record CmdArgs =
  ContainerID :: string
  Netns :: string
  IfName :: string
  Args :: string
  StdinData :: string

record IPAMConfig =
  ProvideOptions :: "string list"
  RequestOptions :: "string list"

record NetConf =
  Name :: string
  IPAM :: IPAMConfig

record IPAMArgs =
  K8S_POD_NAME :: string
  K8S_POD_NAMESPACE :: string
  K8S_POD_INFRA_CONTAINER_ID :: string

record IPConfig =
  Address :: IPNet
  Gateway :: IP

record Result =
  IPs :: "IPConfig list"
  Routes :: "Route list"

subsection \<open>The environment\<close>

text \<open>
  What the operating system, the orchestrator and the libraries answer.

  \<^item> \<open>ns.WithNetNSPath\<close> fails with \<open>NSPathNotExistErr\<close> when the path does not exist,
    fails with another error when the path cannot be opened as a namespace, and otherwise
    runs the closure inside the namespace.
  \<^item> \<open>Pods(namespace).Get(name)\<close> finds the pod, or fails with an error for which
    \<open>k8serrors.IsNotFound\<close> holds, or fails with another error.
  \<^item> \<open>ioutil.WriteFile\<close> replaces the file, or fails and leaves behind whatever it leaves
    (nothing, the old content, a truncated file).
\<close>

datatype NSResult = NSPathNotExistErr | NSFailed error | NSEntered

datatype PodStatus = PodFound | PodNotFound | PodGetFailed error

datatype 'f WriteResult = Written | WriteFailed "'f option"

text \<open>
  \<open>'f\<close> is the type of the content of a file. \<open>jsonMarshal\<close> and \<open>jsonUnmarshal\<close> are
  \<open>json.Marshal\<close> of a slice of records and \<open>json.Unmarshal\<close> into a slice of records that
  starts out \<open>nil\<close>: the latter returns the slice as the decoder leaves it together with
  the decoder's error. \<open>rangeLeases\<close> is the order in which a \<open>range\<close> over the registry
  visits its keys.

  The remaining fields stand for functions of this repository that are not among the
  sources at hand: the decoding of the network configuration and of the CNI arguments,
  \<open>prepareOptions\<close>, and the lease's \<open>AcquireLease\<close>, \<open>IPNet\<close>, \<open>Gateway\<close>, \<open>Routes\<close>
  and \<open>StartMaintaining\<close>.
\<close>

record 'f Env =
  jsonMarshal :: "PersistedLeased list \<Rightarrow> error + 'f"
  jsonUnmarshal :: "'f \<Rightarrow> PersistedLeased list \<times> error option"
  WriteFile :: "'f \<Rightarrow> 'f WriteResult"
  rangeLeases :: "(string \<rightharpoonup> DHCPLease) \<Rightarrow> string list"
  WithNetNSPath :: "string \<Rightarrow> NSResult"
  LinkByName :: "string \<Rightarrow> string \<Rightarrow> error + Link"
  PodsGet :: "string \<Rightarrow> string \<Rightarrow> PodStatus"
  StartMaintaining :: "DHCPLease \<Rightarrow> error option"
  jsonUnmarshalNetConf :: "string \<Rightarrow> error + NetConf"
  LoadArgs :: "string \<Rightarrow> error + IPAMArgs"
  prepareOptions :: "string \<Rightarrow> string list \<Rightarrow> string list
                       \<Rightarrow> error + (OptionCode \<rightharpoonup> bool) \<times> Options"
  AcquireLease :: "string \<Rightarrow> string \<Rightarrow> string \<Rightarrow> (OptionCode \<rightharpoonup> bool) \<Rightarrow> Options
                     \<Rightarrow> IPAMArgs \<Rightarrow> Duration \<Rightarrow> Duration \<Rightarrow> bool \<Rightarrow> error + DHCPLease"
  leaseIPNet :: "DHCPLease \<Rightarrow> error + IPNet"
  leaseGateway :: "DHCPLease \<Rightarrow> IP"
  leaseRoutes :: "DHCPLease \<Rightarrow> Route list"

subsection \<open>Effects\<close>

text \<open>
  The daemon's effects are the content of the lease file \<open>/run/dhcp-leases.json\<close>
  (\<open>None\<close> when the file cannot be read) and the sequence of events it has caused so
  far: taking and releasing the mutex, writing and deleting an entry of the registry, a
  call of \<open>PersistActiveLeases\<close>, a completed write of the file, a printed message, a
  query of the orchestrator, and the calls of a lease's \<open>Stop\<close> and \<open>StartMaintaining\<close>.
\<close>

datatype Message =
    FailedToLoadLeases error
  | PodNotFoundRemoving string
  | FailedToPersist error
  | ErrorWhileSaving
  | NetnsSkipping string string

datatype Event =
    MuxLock
  | MuxUnlock
  | LeasesSet string
  | LeasesDelete string
  | PersistCalled
  | FileWritten
  | Printed Message
  | PodsGetCalled string string
  | StopCalled DHCPLease
  | StartMaintainingCalled DHCPLease

record 'f World =
  leaseFile :: "'f option"
  events :: "Event list"

definition emit :: "Event list \<Rightarrow> 'f World \<Rightarrow> 'f World" where
  "emit es w = w\<lparr>events := events w @ es\<rparr>"

section \<open>The lease store\<close>

text \<open>
  \<^verbatim>\<open>
  func PersistActiveLeases(fileName string, leases map[string]*DHCPLease) error {
      var leasesToSave []PersistedLeased
      for _, v := range leases {
          value := PersistedLeased{
              ClientID: v.clientID, Ack: v.ack, LinkName: v.link.Attrs().Name,
              RenewalTime: v.renewalTime, RebindingTime: v.rebindingTime,
              ExpireTime: v.expireTime, K8sNamespace: v.k8sNamespace,
              K8sPodName: v.k8sPodName, NetNs: v.netNs,
          }
          leasesToSave = append(leasesToSave, value)
      }
      b, err := json.Marshal(leasesToSave)
      if err != nil {
          return err
      }
      err = ioutil.WriteFile(fileName, b, 0644)
      if err != nil {
          log.Printf("Error while saving: %v", err)
      }
      return nil
  }
  \<close>
\<close>

definition persisted :: "DHCPLease \<Rightarrow> PersistedLeased" where
  "persisted v =
     \<lparr> ClientID = clientID v, Ack = ack v, LinkName = AttrsName (link v),
       RenewalTime = renewalTime v, RebindingTime = rebindingTime v,
       ExpireTime = expireTime v, K8sNamespace = k8sNamespace v,
       K8sPodName = k8sPodName v, NetNs = netNs v \<rparr>"

definition leasesToSave :: "'f Env \<Rightarrow> (string \<rightharpoonup> DHCPLease) \<Rightarrow> PersistedLeased list" where
  "leasesToSave env leases =
     map (\<lambda>(k, v). persisted v) (rangeOver leases (rangeLeases env leases))"

definition PersistActiveLeases ::
  "'f Env \<Rightarrow> (string \<rightharpoonup> DHCPLease) \<Rightarrow> 'f World \<Rightarrow> error option \<times> 'f World" where
  "PersistActiveLeases env leases w =
     (let w1 = emit [PersistCalled] w
      in case jsonMarshal env (leasesToSave env leases) of
           Inl err \<Rightarrow> (Some err, w1)
         | Inr b \<Rightarrow>
             (case WriteFile env b of
                Written \<Rightarrow> (None, (emit [FileWritten] w1)\<lparr>leaseFile := Some b\<rparr>)
              | WriteFailed left \<Rightarrow>
                  (None, (emit [Printed ErrorWhileSaving] w1)\<lparr>leaseFile := left\<rparr>)))"

text \<open>
  \<^verbatim>\<open>
  func LoadSavedLeases(leaseFile string, timeout time.Duration, resendMax time.Duration, broadcast bool) ([]*DHCPLease, error) {
      file, err := ioutil.ReadFile(leaseFile)
      if err != nil {
          return nil, err
      }
      var leases []PersistedLeased
      err = json.Unmarshal(file, &leases)
      var reloadedLeases []*DHCPLease
      for _, lease := range leases {
          myLease := &DHCPLease{ clientID: lease.ClientID, ack: lease.Ack,
              renewalTime: lease.RenewalTime, rebindingTime: lease.RebindingTime,
              expireTime: lease.ExpireTime, timeout: timeout, resendMax: resendMax,
              broadcast: broadcast, stop: make(chan struct{}),
              k8sNamespace: lease.K8sNamespace, k8sPodName: lease.K8sPodName,
              netNs: lease.NetNs }
          err := ns.WithNetNSPath(myLease.netNs, func(_ ns.NetNS) error {
              link, err := netlink.LinkByName(lease.LinkName)
              if err != nil {
                  return fmt.Errorf("error looking up %q: %v", lease.LinkName, err)
              }
              myLease.link = link
              return nil
          })
          if err != nil {
              if _, ok := err.(ns.NSPathNotExistErr); ok {
                  fmt.Printf("Container %s/%s does not seem to have a working netns. Skipping", ...)
                  continue
              } else {
                  return nil, fmt.Errorf("couldn't look up link '%s' in container netns '%s': %v", ...)
              }
          }
          reloadedLeases = append(reloadedLeases, myLease)
      }
      return reloadedLeases, nil
  }
  \<close>
  The error of \<open>json.Unmarshal\<close> is assigned and never read. \<open>reloaded\<close> is the lease
  built from a record once its link is resolved; \<open>loadLoop\<close> is the loop, with
  \<open>reloadedLeases\<close> as its accumulator.
\<close>

definition reloaded ::
  "PersistedLeased \<Rightarrow> Link \<Rightarrow> Duration \<Rightarrow> Duration \<Rightarrow> bool \<Rightarrow> DHCPLease" where
  "reloaded lease lnk tmo rmax bc =
     \<lparr> clientID = ClientID lease, ack = Ack lease, link = lnk,
       renewalTime = RenewalTime lease, rebindingTime = RebindingTime lease,
       expireTime = ExpireTime lease, timeout = tmo, resendMax = rmax, broadcast = bc,
       k8sNamespace = K8sNamespace lease, k8sPodName = K8sPodName lease,
       netNs = NetNs lease \<rparr>"

fun loadLoop ::
  "'f Env \<Rightarrow> Duration \<Rightarrow> Duration \<Rightarrow> bool \<Rightarrow> PersistedLeased list \<Rightarrow> DHCPLease list
     \<Rightarrow> 'f World \<Rightarrow> (error + DHCPLease list) \<times> 'f World" where
  "loadLoop env tmo rmax bc [] reloadedLeases w = (Inr reloadedLeases, w)"
| "loadLoop env tmo rmax bc (lease # rest) reloadedLeases w =
     (case WithNetNSPath env (NetNs lease) of
        NSPathNotExistErr \<Rightarrow>
          loadLoop env tmo rmax bc rest reloadedLeases
            (emit [Printed (NetnsSkipping (K8sNamespace lease) (K8sPodName lease))] w)
      | NSFailed err \<Rightarrow> (Inl (''couldn't look up link: '' @ err), w)
      | NSEntered \<Rightarrow>
          (case LinkByName env (NetNs lease) (LinkName lease) of
             Inl err \<Rightarrow> (Inl (''couldn't look up link: error looking up: '' @ err), w)
           | Inr lnk \<Rightarrow>
               loadLoop env tmo rmax bc rest
                 (reloadedLeases @ [reloaded lease lnk tmo rmax bc]) w))"

definition LoadSavedLeases ::
  "'f Env \<Rightarrow> Duration \<Rightarrow> Duration \<Rightarrow> bool \<Rightarrow> 'f World
     \<Rightarrow> (error + DHCPLease list) \<times> 'f World" where
  "LoadSavedLeases env tmo rmax bc w =
     (case leaseFile w of
        None \<Rightarrow> (Inl ''open /run/dhcp-leases.json: no such file or directory'', w)
      | Some file \<Rightarrow>
          (case jsonUnmarshal env file of
             (leases, err) \<Rightarrow> loadLoop env tmo rmax bc leases [] w))"

section \<open>The daemon\<close>

text \<open>
  \<^verbatim>\<open>
  type DHCP struct {
      mux             sync.Mutex
      leases          map[string]*DHCPLease
      hostNetnsPrefix string
      clientTimeout   time.Duration
      clientResendMax time.Duration
      broadcast       bool
      k8sClient       v1.CoreV1Interface
  }
  \<close>
  The mutex shows in the events, the orchestrator client is the environment's \<open>PodsGet\<close>.
\<close>

record DHCP =
  leases :: "string \<rightharpoonup> DHCPLease"
  hostNetnsPrefix :: string
  clientTimeout :: Duration
  clientResendMax :: Duration
  broadcastD :: bool

text \<open>
  \<^verbatim>\<open>
  func (d *DHCP) getLease(clientID string) *DHCPLease {
      d.mux.Lock()
      defer d.mux.Unlock()
      l, ok := d.leases[clientID]
      if !ok {
          return nil
      }
      return l
  }

  func (d *DHCP) setLease(clientID string, l *DHCPLease) {
      d.mux.Lock()
      defer d.mux.Unlock()
      d.leases[clientID] = l
  }

  func (d *DHCP) clearLease(clientID string) {
      d.mux.Lock()
      defer d.mux.Unlock()
      delete(d.leases, clientID)
      err := PersistActiveLeases(savedLeaseLocation, d.leases)
      if err != nil {
          fmt.Printf("Failed to persist: %v", err)
      }
  }
  \<close>
\<close>

definition getLease :: "string \<Rightarrow> DHCP \<Rightarrow> 'f World \<Rightarrow> DHCPLease option \<times> 'f World" where
  "getLease cid d w = (leases d cid, emit [MuxLock, MuxUnlock] w)"

definition setLease :: "string \<Rightarrow> DHCPLease \<Rightarrow> DHCP \<Rightarrow> 'f World \<Rightarrow> DHCP \<times> 'f World" where
  "setLease cid l d w =
     (d\<lparr>leases := (leases d)(cid \<mapsto> l)\<rparr>, emit [MuxLock, LeasesSet cid, MuxUnlock] w)"

definition clearLease :: "'f Env \<Rightarrow> string \<Rightarrow> DHCP \<Rightarrow> 'f World \<Rightarrow> DHCP \<times> 'f World" where
  "clearLease env cid d w =
     (let d1 = d\<lparr>leases := (leases d)(cid := None)\<rparr>;
          w1 = emit [MuxLock, LeasesDelete cid] w
      in case PersistActiveLeases env (leases d1) w1 of
           (Some err, w2) \<Rightarrow> (d1, emit [Printed (FailedToPersist err), MuxUnlock] w2)
         | (None, w2) \<Rightarrow> (d1, emit [MuxUnlock] w2))"

text \<open>
  \<^verbatim>\<open>
  func newDHCP(clientTimeout, clientResendMax time.Duration, broadcast bool, k8s v1.CoreV1Interface) (*DHCP, error) {
      leases, err := LoadSavedLeases(savedLeaseLocation, clientTimeout, clientResendMax, broadcast)
      dhcp := &DHCP{
          leases:          make(map[string]*DHCPLease),
          clientTimeout:   clientTimeout,
          clientResendMax: clientResendMax,
          k8sClient:       k8s,
      }
      if err != nil {
          fmt.Printf("Failed to load leases: %v%n", err)
      }
      for _, val := range leases {
          if val.k8sPodName != "" {
              getOptions := metav1.GetOptions{}
              _, err := k8s.Pods(val.k8sNamespace).Get(context.TODO(), val.k8sPodName, getOptions)
              if k8serrors.IsNotFound(err) {
                  fmt.Printf("Pod %s wasn't found running on the cluster. Removing.\n", val.k8sPodName)
                  continue
              } else if err != nil {
                  return nil, err
              }
          }
          dhcp.setLease(val.clientID, val)
          err := val.StartMaintaining()
          if err != nil {
              return nil, fmt.Errorf("failed to start maintaining lease: %v", err)
          }
      }
      err = PersistActiveLeases(savedLeaseLocation, dhcp.leases)
      if err != nil {
          return nil, err
      }
      return dhcp, nil
  }
  \<close>
  \<open>keepLease\<close> is the tail of the loop body (insert and start), \<open>reconcile\<close> the loop:
  it returns the error that aborts it, if any, with the registry and the effects so far.
\<close>

definition keepLease ::
  "'f Env \<Rightarrow> DHCPLease \<Rightarrow> DHCP \<Rightarrow> 'f World \<Rightarrow> error option \<times> DHCP \<times> 'f World" where
  "keepLease env val d w =
     (case setLease (clientID val) val d w of
        (d1, w1) \<Rightarrow>
          (case StartMaintaining env val of
             Some err \<Rightarrow>
               (Some (''failed to start maintaining lease: '' @ err), d1,
                emit [StartMaintainingCalled val] w1)
           | None \<Rightarrow> (None, d1, emit [StartMaintainingCalled val] w1)))"

fun reconcile ::
  "'f Env \<Rightarrow> DHCPLease list \<Rightarrow> DHCP \<Rightarrow> 'f World \<Rightarrow> error option \<times> DHCP \<times> 'f World" where
  "reconcile env [] d w = (None, d, w)"
| "reconcile env (val # rest) d w =
     (if k8sPodName val \<noteq> '''' then
        (case PodsGet env (k8sNamespace val) (k8sPodName val) of
           PodNotFound \<Rightarrow>
             reconcile env rest d
               (emit [PodsGetCalled (k8sNamespace val) (k8sPodName val),
                      Printed (PodNotFoundRemoving (k8sPodName val))] w)
         | PodGetFailed err \<Rightarrow>
             (Some err, d, emit [PodsGetCalled (k8sNamespace val) (k8sPodName val)] w)
         | PodFound \<Rightarrow>
             (case keepLease env val d
                     (emit [PodsGetCalled (k8sNamespace val) (k8sPodName val)] w) of
                (Some err, d1, w1) \<Rightarrow> (Some err, d1, w1)
              | (None, d1, w1) \<Rightarrow> reconcile env rest d1 w1))
      else
        (case keepLease env val d w of
           (Some err, d1, w1) \<Rightarrow> (Some err, d1, w1)
         | (None, d1, w1) \<Rightarrow> reconcile env rest d1 w1))"

definition newDHCP ::
  "'f Env \<Rightarrow> Duration \<Rightarrow> Duration \<Rightarrow> bool \<Rightarrow> 'f World \<Rightarrow> (error + DHCP) \<times> 'f World" where
  "newDHCP env tmo rmax bc w =
     (case LoadSavedLeases env tmo rmax bc w of
        (loaded, w1) \<Rightarrow>
          let dhcp = \<lparr> leases = Map.empty, hostNetnsPrefix = '''', clientTimeout = tmo,
                       clientResendMax = rmax, broadcastD = False \<rparr>;
              (vals, w2) = (case loaded of
                              Inl err \<Rightarrow> ([], emit [Printed (FailedToLoadLeases err)] w1)
                            | Inr ls \<Rightarrow> (ls, w1))
          in case reconcile env vals dhcp w2 of
               (Some err, d1, w3) \<Rightarrow> (Inl err, w3)
             | (None, d1, w3) \<Rightarrow>
                 (case PersistActiveLeases env (leases d1) w3 of
                    (Some err, w4) \<Rightarrow> (Inl err, w4)
                  | (None, w4) \<Rightarrow> (Inr d1, w4)))"

text \<open>
  \<^verbatim>\<open>
  func (d *DHCP) Allocate(args *skel.CmdArgs, result *current.Result) error {
      conf := NetConf{}
      if err := json.Unmarshal(args.StdinData, &conf); err != nil {
          return fmt.Errorf("error parsing netconf: %v", err)
      }
      var ipamArgs IPAMArgs
      if err := types.LoadArgs(args.Args, &ipamArgs); err != nil {
          return fmt.Errorf("failed to parse args: %v", err)
      }
      optsRequesting, optsProviding, err := prepareOptions(args.Args, conf.IPAM.ProvideOptions, conf.IPAM.RequestOptions)
      if err != nil {
          return err
      }
      clientID := generateClientID(args.ContainerID, conf.Name, args.IfName)
      hostNetns := d.hostNetnsPrefix + args.Netns
      l, err := AcquireLease(clientID, hostNetns, args.IfName,
          optsRequesting, optsProviding, ipamArgs,
          d.clientTimeout, d.clientResendMax, d.broadcast)
      if err != nil {
          return err
      }
      ipn, err := l.IPNet()
      if err != nil {
          l.Stop()
          return err
      }
      d.setLease(clientID, l)
      err = PersistActiveLeases(savedLeaseLocation, d.leases)
      if err != nil {
          fmt.Printf("Failed to persist: %v", err)
          return err
      }
      result.IPs = []*current.IPConfig{{
          Address: *ipn,
          Gateway: l.Gateway(),
      }}
      result.Routes = l.Routes()
      return nil
  }
  \<close>
\<close>

definition Allocate ::
  "'f Env \<Rightarrow> CmdArgs \<Rightarrow> DHCP \<Rightarrow> 'f World \<Rightarrow> (error + Result) \<times> DHCP \<times> 'f World" where
  "Allocate env args d w =
     (case jsonUnmarshalNetConf env (StdinData args) of
        Inl err \<Rightarrow> (Inl (''error parsing netconf: '' @ err), d, w)
      | Inr conf \<Rightarrow>
     (case LoadArgs env (Args args) of
        Inl err \<Rightarrow> (Inl (''failed to parse args: '' @ err), d, w)
      | Inr ipamArgs \<Rightarrow>
     (case prepareOptions env (Args args) (ProvideOptions (IPAM conf))
             (RequestOptions (IPAM conf)) of
        Inl err \<Rightarrow> (Inl err, d, w)
      | Inr (optsRequesting, optsProviding) \<Rightarrow>
          let cid = generateClientID (ContainerID args) (Name conf) (IfName args);
              hostNetns = hostNetnsPrefix d @ Netns args
          in (case AcquireLease env cid hostNetns (IfName args) optsRequesting optsProviding
                     ipamArgs (clientTimeout d) (clientResendMax d) (broadcastD d) of
                Inl err \<Rightarrow> (Inl err, d, w)
              | Inr l \<Rightarrow>
                  (case leaseIPNet env l of
                     Inl err \<Rightarrow> (Inl err, d, emit [StopCalled l] w)
                   | Inr ipn \<Rightarrow>
                       (case setLease cid l d w of
                          (d1, w1) \<Rightarrow>
                            (case PersistActiveLeases env (leases d1) w1 of
                               (Some err, w2) \<Rightarrow>
                                 (Inl err, d1, emit [Printed (FailedToPersist err)] w2)
                             | (None, w2) \<Rightarrow>
                                 (Inr \<lparr> IPs = [\<lparr> Address = ipn,
                                                  Gateway = leaseGateway env l \<rparr>],
                                        Routes = leaseRoutes env l \<rparr>,
                                  d1, w2))))))))"

text \<open>
  \<^verbatim>\<open>
  func (d *DHCP) Release(args *skel.CmdArgs, reply *struct{}) error {
      conf := NetConf{}
      if err := json.Unmarshal(args.StdinData, &conf); err != nil {
          return fmt.Errorf("error parsing netconf: %v", err)
      }
      clientID := generateClientID(args.ContainerID, conf.Name, args.IfName)
      if l := d.getLease(clientID); l != nil {
          l.Stop()
          d.clearLease(clientID)
      }
      return nil
  }
  \<close>
\<close>

definition Release ::
  "'f Env \<Rightarrow> CmdArgs \<Rightarrow> DHCP \<Rightarrow> 'f World \<Rightarrow> error option \<times> DHCP \<times> 'f World" where
  "Release env args d w =
     (case jsonUnmarshalNetConf env (StdinData args) of
        Inl err \<Rightarrow> (Some (''error parsing netconf: '' @ err), d, w)
      | Inr conf \<Rightarrow>
          let cid = generateClientID (ContainerID args) (Name conf) (IfName args)
          in (case getLease cid d w of
                (None, w1) \<Rightarrow> (None, d, w1)
              | (Some l, w1) \<Rightarrow>
                  (case clearLease env cid d (emit [StopCalled l] w1) of
                     (d1, w2) \<Rightarrow> (None, d1, w2))))"

section \<open>Vocabulary of the properties\<close>

text \<open>
  \<open>precedes a b es\<close>: the event \<open>a\<close> occurs in \<open>es\<close>, and \<open>b\<close> occurs after its first
  occurrence.
\<close>

fun precedes :: "Event \<Rightarrow> Event \<Rightarrow> Event list \<Rightarrow> bool" where
  "precedes a b [] = False"
| "precedes a b (e # es) = (if e = a then b \<in> set es else precedes a b es)"



text \<open>
  The events that a call of \<open>PersistActiveLeases\<close> on a registry causes after
  \<open>PersistCalled\<close>, and the content of the lease file after it, given the content
  before: the encoding may fail, and the write may succeed or fail.
\<close>

definition persistOutcome :: "'f Env \<Rightarrow> (string \<rightharpoonup> DHCPLease) \<Rightarrow> Event list" where
  "persistOutcome env ls =
     (case jsonMarshal env (leasesToSave env ls) of
        Inl err \<Rightarrow> []
      | Inr b \<Rightarrow>
          (case WriteFile env b of
             Written \<Rightarrow> [FileWritten]
           | WriteFailed left \<Rightarrow> [Printed ErrorWhileSaving]))"

definition persistFile :: "'f Env \<Rightarrow> (string \<rightharpoonup> DHCPLease) \<Rightarrow> 'f option \<Rightarrow> 'f option" where
  "persistFile env ls before =
     (case jsonMarshal env (leasesToSave env ls) of
        Inl err \<Rightarrow> before
      | Inr b \<Rightarrow>
          (case WriteFile env b of
             Written \<Rightarrow> Some b
           | WriteFailed left \<Rightarrow> left))"

definition persistError :: "'f Env \<Rightarrow> (string \<rightharpoonup> DHCPLease) \<Rightarrow> error option" where
  "persistError env ls =
     (case jsonMarshal env (leasesToSave env ls) of Inl err \<Rightarrow> Some err | Inr b \<Rightarrow> None)"

text \<open>
  For a record of the lease file: \<open>netnsGone\<close> when its namespace path no longer
  exists, and \<open>resolvedLink\<close>, the link that its name resolves to inside its
  namespace, if the namespace can be entered and has a link of that name.
\<close>

definition netnsGone :: "'f Env \<Rightarrow> PersistedLeased \<Rightarrow> bool" where
  "netnsGone env r \<longleftrightarrow> WithNetNSPath env (NetNs r) = NSPathNotExistErr"

definition resolvedLink :: "'f Env \<Rightarrow> PersistedLeased \<Rightarrow> Link option" where
  "resolvedLink env r =
     (case WithNetNSPath env (NetNs r) of
        NSEntered \<Rightarrow>
          (case LinkByName env (NetNs r) (LinkName r) of
             Inr lnk \<Rightarrow> Some lnk
           | Inl err \<Rightarrow> None)
      | NSPathNotExistErr \<Rightarrow> None
      | NSFailed err \<Rightarrow> None)"

text \<open>
  The lease that \<open>LoadSavedLeases\<close> makes of a record, if it makes one.
\<close>

definition reloadedLease ::
  "'f Env \<Rightarrow> Duration \<Rightarrow> Duration \<Rightarrow> bool \<Rightarrow> PersistedLeased \<Rightarrow> DHCPLease option" where
  "reloadedLease env tmo rmax bc r =
     (case resolvedLink env r of
        None \<Rightarrow> None
      | Some lnk \<Rightarrow> Some (reloaded r lnk tmo rmax bc))"

text \<open>
  \<open>sameRecord env v l\<close>: the lease \<open>l\<close> carries the persisted fields of the lease \<open>v\<close>,
  and its link is the one that the name of \<open>v\<close>'s link resolves to.
\<close>

definition sameRecord :: "'f Env \<Rightarrow> DHCPLease \<Rightarrow> DHCPLease \<Rightarrow> bool" where
  "sameRecord env v l \<longleftrightarrow>
     clientID l = clientID v \<and> ack l = ack v
     \<and> renewalTime l = renewalTime v \<and> rebindingTime l = rebindingTime v
     \<and> expireTime l = expireTime v
     \<and> k8sNamespace l = k8sNamespace v \<and> k8sPodName l = k8sPodName v
     \<and> netNs l = netNs v
     \<and> resolvedLink env (persisted v) = Some (link l)"

text \<open>
  For a loaded lease at startup: \<open>kept\<close> when it carries no workload identity or the
  orchestrator finds its workload, \<open>dropped\<close> when it carries one and the orchestrator
  reports it not found, \<open>queryFailed\<close> when it carries one and the query fails with
  another error. \<open>started es\<close> lists the leases whose maintainer the events \<open>es\<close> start.
\<close>

definition kept :: "'f Env \<Rightarrow> DHCPLease \<Rightarrow> bool" where
  "kept env v \<longleftrightarrow>
     k8sPodName v = '''' \<or> PodsGet env (k8sNamespace v) (k8sPodName v) = PodFound"

definition dropped :: "'f Env \<Rightarrow> DHCPLease \<Rightarrow> bool" where
  "dropped env v \<longleftrightarrow>
     k8sPodName v \<noteq> '''' \<and> PodsGet env (k8sNamespace v) (k8sPodName v) = PodNotFound"

definition queryFailed :: "'f Env \<Rightarrow> DHCPLease \<Rightarrow> bool" where
  "queryFailed env v \<longleftrightarrow>
     k8sPodName v \<noteq> ''''
     \<and> (case PodsGet env (k8sNamespace v) (k8sPodName v) of
          PodGetFailed err \<Rightarrow> True | PodFound \<Rightarrow> False | PodNotFound \<Rightarrow> False)"

fun started :: "Event list \<Rightarrow> DHCPLease list" where
  "started [] = []"
| "started (StartMaintainingCalled v # es) = v # started es"
| "started (e # es) = started es"

text \<open>
  \<open>inserted vs m\<close>: the registry \<open>m\<close> after the leases \<open>vs\<close> have been written to it
  in this order, each under its client identifier.
\<close>

fun inserted :: "DHCPLease list \<Rightarrow> (string \<rightharpoonup> DHCPLease) \<Rightarrow> (string \<rightharpoonup> DHCPLease)" where
  "inserted [] m = m"
| "inserted (v # vs) m = inserted vs (m(clientID v \<mapsto> v))"

section \<open>Concrete runs\<close>

text \<open>
  The data of the runs on which the properties below are evaluated.
\<close>

subsection \<open>Runs of the packet exchange\<close>

text \<open>
  A dictionary
  of two options and one of a single option, and a client whose packets are 240 zero
  bytes followed by the options, which answers a request with a reply of the given
  message type and whose sends return the given error.
\<close>

definition opts0 :: Options where "opts0 = [53 \<mapsto> [1], 61 \<mapsto> [7, 8]]"
definition opts1 :: Options where "opts1 = [53 \<mapsto> [1]]"

definition client0 :: "byte \<Rightarrow> error option \<Rightarrow> Client" where
  "client0 reply sendErr =
     \<lparr> DiscoverPacket = replicate 240 0 @ [End],
       RequestPacket = (\<lambda>offer. replicate 240 0 @ [End]),
       SendPacket = (\<lambda>p. sendErr),
       GetOffer = (\<lambda>p. (replicate 240 0 @ [53, 1, 2, End], None)),
       GetAcknowledgement = (\<lambda>p. (replicate 240 0 @ [53, 1, reply, End], None)),
       ParseOptions = (\<lambda>p. [53 \<mapsto> take 1 (drop 242 p)]) \<rparr>"

definition discover0 :: Packet where
  "discover0 = replicate 240 0 @ [53, 1, 1, 61, 2, 7, 8, 255] @ replicate 24 0"
definition request0 :: Packet where
  "request0 = replicate 240 0 @ [61, 2, 7, 8, 53, 1, 1, 255] @ replicate 24 0"

subsection \<open>Runs of the daemon\<close>

text \<open>
  A lease for container \<open>c1\<close> on network \<open>net\<close> and interface \<open>eth0\<close>, the request that
  allocates and releases it, and an environment in which the content of a file is the
  list of records itself. The environment is given the outcome of a write of the lease
  file, the answer of the orchestrator and the result of decoding the lease file. In it
  the namespace of \<open>c1\<close> can be entered and that of any other container is gone, and the
  only interface is \<open>eth0\<close>.
\<close>

definition lease0 :: DHCPLease where
  "lease0 =
     \<lparr> clientID = ''c1/net/eth0'', ack = Some [2, 1, 6, 0], link = Link ''eth0'' 2,
       renewalTime = 1800, rebindingTime = 3150, expireTime = 3600,
       timeout = 10, resendMax = 62, broadcast = False,
       k8sNamespace = ''default'', k8sPodName = ''web-0'', netNs = ''/var/run/netns/c1'' \<rparr>"

definition args0 :: CmdArgs where
  "args0 =
     \<lparr> ContainerID = ''c1'', Netns = ''/var/run/netns/c1'', IfName = ''eth0'',
       Args = '''', StdinData = ''{name: net}'' \<rparr>"

definition dhcp0 :: DHCP where
  "dhcp0 =
     \<lparr> leases = Map.empty, hostNetnsPrefix = '''', clientTimeout = 10,
       clientResendMax = 62, broadcastD = False \<rparr>"

definition world0 :: "PersistedLeased list World" where
  "world0 = \<lparr> leaseFile = None, events = [] \<rparr>"

definition env0 ::
  "PersistedLeased list WriteResult \<Rightarrow> PodStatus
     \<Rightarrow> (PersistedLeased list \<Rightarrow> PersistedLeased list \<times> error option)
     \<Rightarrow> PersistedLeased list Env" where
  "env0 written pod decode =
     \<lparr> jsonMarshal = Inr,
       jsonUnmarshal = decode,
       WriteFile = (\<lambda>b. written),
       rangeLeases = (\<lambda>m. filter (\<lambda>k. m k \<noteq> None) [''c1/net/eth0'', ''c2/net/eth0'', ''c3/net/eth0'']),
       WithNetNSPath =
         (\<lambda>path. if path = ''/var/run/netns/c1'' then NSEntered else NSPathNotExistErr),
       LinkByName =
         (\<lambda>path name. if name = ''eth0'' then Inr (Link ''eth0'' 2) else Inl ''Link not found''),
       PodsGet = (\<lambda>namespace name. pod),
       StartMaintaining = (\<lambda>l. None),
       jsonUnmarshalNetConf =
         (\<lambda>stdin. if stdin = '''' then Inl ''unexpected end of JSON input''
                  else Inr \<lparr> Name = ''net'',
                             IPAM = \<lparr> ProvideOptions = [], RequestOptions = [] \<rparr> \<rparr>),
       LoadArgs =
         (\<lambda>a. Inr \<lparr> K8S_POD_NAME = ''web-0'', K8S_POD_NAMESPACE = ''default'',
                      K8S_POD_INFRA_CONTAINER_ID = ''c1'' \<rparr>),
       prepareOptions = (\<lambda>a provide request. Inr (Map.empty, opts1)),
       AcquireLease =
         (\<lambda>cid hostNetns ifName requesting providing ipamArgs tmo rmax bc.
            Inr (lease0\<lparr>clientID := cid, netNs := hostNetns, link := Link ifName 2\<rparr>)),
       leaseIPNet = (\<lambda>l. Inr ([10, 0, 0, 5], [255, 255, 255, 0])),
       leaseGateway = (\<lambda>l. [10, 0, 0, 1]),
       leaseRoutes = (\<lambda>l. []) \<rparr>"

definition decoded :: "PersistedLeased list \<Rightarrow> PersistedLeased list \<times> error option" where
  "decoded file = (file, None)"

text \<open>
  The registry that holds \<open>lease0\<close>, a decoder that rejects the file and leaves the
  slice empty, and a lease file with the record of \<open>lease0\<close>.
\<close>

definition dhcp1 :: DHCP where
  "dhcp1 = dhcp0\<lparr>leases := [''c1/net/eth0'' \<mapsto> lease0]\<rparr>"

definition rejected :: "PersistedLeased list \<Rightarrow> PersistedLeased list \<times> error option" where
  "rejected file = ([], Some ''unexpected end of JSON input'')"

definition world1 :: "PersistedLeased list World" where
  "world1 = \<lparr> leaseFile = Some [persisted lease0], events = [] \<rparr>"

text \<open>The result that Allocate returns for \<open>lease0\<close>.\<close>

definition result0 :: Result where
  "result0 =
     \<lparr> IPs = [\<lparr> Address = ([10, 0, 0, 5], [255, 255, 255, 0]), Gateway = [10, 0, 0, 1] \<rparr>],
       Routes = [] \<rparr>"

text \<open>
  Two more records for the lease file: one whose namespace is gone, and one in the
  namespace of \<open>c1\<close> whose link \<open>eth1\<close> does not exist.
\<close>

definition recordGone :: PersistedLeased where
  "recordGone = (persisted lease0)\<lparr>ClientID := ''c9/net/eth0'', NetNs := ''/var/run/netns/c9''\<rparr>"

definition recordNoLink :: PersistedLeased where
  "recordNoLink = (persisted lease0)\<lparr>ClientID := ''c1/net/eth1'', LinkName := ''eth1''\<rparr>"

text \<open>
  A startup with three leases in the lease file: \<open>lease0\<close>, whose workload the
  orchestrator finds; \<open>lease2\<close>, whose workload \<open>web-1\<close> it reports not found; and
  \<open>lease3\<close>, which carries no workload identity.
\<close>

definition lease2 :: DHCPLease where
  "lease2 = lease0\<lparr>clientID := ''c2/net/eth0'', k8sPodName := ''web-1''\<rparr>"

definition lease3 :: DHCPLease where
  "lease3 = lease0\<lparr>clientID := ''c3/net/eth0'', k8sNamespace := '''', k8sPodName := ''''\<rparr>"

definition env3 :: "PersistedLeased list Env" where
  "env3 =
     (env0 Written PodFound decoded)
       \<lparr>PodsGet := (\<lambda>namespace name. if name = ''web-0'' then PodFound else PodNotFound)\<rparr>"

definition world3 :: "PersistedLeased list World" where
  "world3 =
     \<lparr> leaseFile = Some [persisted lease0, persisted lease2, persisted lease3], events = [] \<rparr>"

section \<open>Properties of the client identifier\<close>

text \<open>
  C9. \<open>generateClientID\<close> returns the concatenation of the container id, the network
  name and the interface name, separated by slashes; a concatenation longer than 254
  bytes is cut to exactly its first 254 bytes. The result is a function of the three
  arguments and is never longer than 254 bytes.
\<close>

theorem generateClientID_spec:
  "(length (containerID @ ''/'' @ netName @ ''/'' @ ifName) \<le> 254 \<longrightarrow>
      generateClientID containerID netName ifName
        = containerID @ ''/'' @ netName @ ''/'' @ ifName)
   \<and> (254 < length (containerID @ ''/'' @ netName @ ''/'' @ ifName) \<longrightarrow>
      generateClientID containerID netName ifName
        = take 254 (containerID @ ''/'' @ netName @ ''/'' @ ifName)
      \<and> length (generateClientID containerID netName ifName) = 254)
   \<and> length (generateClientID containerID netName ifName) \<le> 254"
  unfolding generateClientID_def Let_def
  by (simp del: take_append length_append)

theorem generateClientID_spec_witness:
  "length (''c1'' @ ''/'' @ ''net'' @ ''/'' @ ''eth0'') \<le> 254
   \<and> generateClientID ''c1'' ''net'' ''eth0'' = ''c1/net/eth0''
   \<and> 254 < length (replicate 300 CHR ''a'' @ ''/'' @ ''net'' @ ''/'' @ ''eth0'')
   \<and> generateClientID (replicate 300 CHR ''a'') ''net'' ''eth0'' = replicate 254 CHR ''a''
   \<and> length (generateClientID (replicate 300 CHR ''a'') ''net'' ''eth0'') = 254"
  using generateClientID_spec [of "''c1''" "''net''" "''eth0''"]
    generateClientID_spec [of "replicate 300 CHR ''a''" "''net''" "''eth0''"]
  by simp

section \<open>Properties of the packet exchange\<close>

subsection \<open>The wire format of the assembled options\<close>

lemma encodeOption_pair: "encodeOption (opt, data) = [opt, of_nat (length data)] @ data"
  by (simp add: encodeOption_def)

lemma addOptions_Nil_packet: "kvs \<noteq> [] \<Longrightarrow> addOptions [] kvs = None"
  by (cases kvs) (auto simp: AddOption_def)

lemma addOptions_wire:
  "p \<noteq> [] \<Longrightarrow> kvs \<noteq> [] \<Longrightarrow>
     addOptions p kvs = Some (butlast p @ concat (map encodeOption kvs) @ [End])"
proof (induction kvs arbitrary: p)
  case Nil
  then show ?case by simp
next
  case (Cons kv kvs)
  obtain opt data where kv: "kv = (opt, data)" by (cases kv)
  show ?case
  proof (cases "kvs = []")
    case True
    with Cons.prems kv show ?thesis by (simp add: AddOption_def encodeOption_pair)
  next
    case False
    have "addOptions (butlast p @ [opt, of_nat (length data)] @ data @ [End]) kvs
            = Some (butlast (butlast p @ [opt, of_nat (length data)] @ data @ [End])
                    @ concat (map encodeOption kvs) @ [End])"
      using False by (intro Cons.IH) simp_all
    moreover have "butlast (butlast p @ [opt, of_nat (length data)] @ data @ [End])
            = butlast p @ [opt, of_nat (length data)] @ data"
      by (simp add: butlast_append)
    ultimately show ?thesis
      using Cons.prems kv by (simp add: AddOption_def encodeOption_pair)
  qed
qed

lemma rangeOver_map:
  "set ks \<subseteq> dom m \<Longrightarrow> rangeOver m ks = map (\<lambda>k. (k, the (m k))) ks"
  by (induction ks) (auto simp: rangeOver_def List.map_filter_simps)

lemma rangeOver_mset:
  assumes "rangeOrder m ks" "rangeOrder m ks'"
  shows "mset (rangeOver m ks) = mset (rangeOver m ks')"
proof -
  have "distinct ks" "distinct ks'" "set ks = set ks'"
    using assms by (simp_all add: rangeOrder_def)
  then have "mset ks = mset ks'"
    by (simp add: set_eq_iff_mset_eq_distinct)
  then have "mset (map (\<lambda>k. (k, the (m k))) ks) = mset (map (\<lambda>k. (k, the (m k))) ks')"
    by (metis mset_map)
  then show ?thesis
    using assms by (simp add: rangeOver_map rangeOrder_def)
qed

lemma rangeOrder_single:
  assumes "rangeOrder m ks" "rangeOrder m ks'" "dom m \<subseteq> {k}"
  shows "ks = ks'"
proof -
  have one: "xs = [] \<or> xs = [k]" if "distinct xs" "set xs \<subseteq> {k}" for xs :: "'a list"
  proof (cases xs)
    case Nil
    then show ?thesis by simp
  next
    case (Cons y ys)
    with that have "y = k" "set ys \<subseteq> {k}" "y \<notin> set ys" by auto
    then have "ys = []" by (cases ys) auto
    with Cons \<open>y = k\<close> show ?thesis by simp
  qed
  have "distinct ks" "set ks \<subseteq> {k}" "distinct ks'" "set ks' \<subseteq> {k}"
    using assms by (simp_all add: rangeOrder_def)
  then have "ks = [] \<or> ks = [k]" "ks' = [] \<or> ks' = [k]"
    by (simp_all add: one)
  moreover have "set ks = set ks'"
    using assms by (simp add: rangeOrder_def)
  ultimately show ?thesis by auto
qed

lemma mset_concat_map_cong:
  assumes "mset xs = mset ys"
  shows "mset (concat (map f xs)) = mset (concat (map f ys))"
proof -
  have "mset (concat (map f zs)) = (\<Sum>z\<in>#mset zs. mset (f z))" for zs
    by (induction zs) simp_all
  with assms show ?thesis by simp
qed

lemma addOptions_mset:
  assumes "mset kvs = mset kvs'"
  shows "map_option mset (addOptions p kvs) = map_option mset (addOptions p kvs')"
proof (cases "kvs = []")
  case True
  with assms have "kvs' = []" by (metis mset_zero_iff)
  with True show ?thesis by simp
next
  case False
  with assms have ne: "kvs' \<noteq> []" by (metis mset_zero_iff)
  show ?thesis
  proof (cases "p = []")
    case True
    with False ne show ?thesis by (simp add: addOptions_Nil_packet)
  next
    case pne: False
    from assms have "mset (concat (map encodeOption kvs)) = mset (concat (map encodeOption kvs'))"
      by (rule mset_concat_map_cong)
    with False ne pne show ?thesis by (simp add: addOptions_wire)
  qed
qed

lemma PadToMinSize_mset:
  "mset p = mset q \<Longrightarrow> mset (PadToMinSize p) = mset (PadToMinSize q)"
proof -
  assume eq: "mset p = mset q"
  then have "length p = length q" by (metis size_mset)
  with eq show ?thesis by (simp add: PadToMinSize_def)
qed


lemmas packet_eval =
  client0_def DhcpSendDiscoverPacket_def DhcpSendRequest_def opts0_def opts1_def
  rangeOver_def List.map_filter_simps AddOption_def PadToMinSize_def
  OptionDHCPMessageType_def ACK_def End_def rangeOrder_def

lemma discover_run: "DhcpSendDiscoverPacket (client0 r se) opts0 [53, 61] = Some (discover0, se)"
  by (simp add: packet_eval discover0_def butlast_append)

lemma request_run: "DhcpSendRequest (client0 r se) opts0 [61, 53] op = Some (request0, se)"
  by (simp add: packet_eval request0_def butlast_append)

lemma DhcpSendDiscoverPacket_mset:
  assumes "rangeOrder options ks" and "rangeOrder options ks'"
  shows "map_option (mset \<circ> fst) (DhcpSendDiscoverPacket c options ks)
           = map_option (mset \<circ> fst) (DhcpSendDiscoverPacket c options ks')"
proof -
  let ?p = "addOptions (DiscoverPacket c) (rangeOver options ks)"
  let ?q = "addOptions (DiscoverPacket c) (rangeOver options ks')"
  have "map_option mset ?p = map_option mset ?q"
    using assms by (intro addOptions_mset rangeOver_mset)
  then show ?thesis
  proof (cases ?p)
    case None
    with \<open>map_option mset ?p = map_option mset ?q\<close> show ?thesis
      by (simp add: DhcpSendDiscoverPacket_def)
  next
    case (Some a)
    with \<open>map_option mset ?p = map_option mset ?q\<close>
    obtain b where b: "?q = Some b" "mset a = mset b"
      by (cases ?q) auto
    from b(2) have "mset (PadToMinSize a) = mset (PadToMinSize b)"
      by (rule PadToMinSize_mset)
    with Some b(1) show ?thesis
      by (simp add: DhcpSendDiscoverPacket_def Let_def)
  qed
qed

lemma DhcpSendRequest_mset:
  assumes "rangeOrder options ks" and "rangeOrder options ks'"
  shows "map_option (mset \<circ> fst) (DhcpSendRequest c options ks offer)
           = map_option (mset \<circ> fst) (DhcpSendRequest c options ks' offer)"
proof -
  let ?p = "addOptions (RequestPacket c offer) (rangeOver options ks)"
  let ?q = "addOptions (RequestPacket c offer) (rangeOver options ks')"
  have "map_option mset ?p = map_option mset ?q"
    using assms by (intro addOptions_mset rangeOver_mset)
  then show ?thesis
  proof (cases ?p)
    case None
    with \<open>map_option mset ?p = map_option mset ?q\<close> show ?thesis
      by (simp add: DhcpSendRequest_def)
  next
    case (Some a)
    with \<open>map_option mset ?p = map_option mset ?q\<close>
    obtain b where b: "?q = Some b" "mset a = mset b"
      by (cases ?q) auto
    from b(2) have "mset (PadToMinSize a) = mset (PadToMinSize b)"
      by (rule PadToMinSize_mset)
    with Some b(1) show ?thesis
      by (simp add: DhcpSendRequest_def Let_def)
  qed
qed

subsection \<open>Assembling the same dictionary twice\<close>

text \<open>
  C7 (as amended). Two assemblies of an outbound packet from the same option dictionary
  visit the options in orders that Go does not fix. Whatever the two orders, both
  assemblies panic or neither does, and the padded packets have the same length and
  hold the same bytes with the same multiplicities; when the dictionary has at most one
  option the packets, and the results of sending them, are identical. This holds for
  the discover packet and for the request packet.
\<close>

theorem DhcpSend_options_order:
  assumes "rangeOrder options ks" and "rangeOrder options ks'"
  shows "(dom options \<subseteq> {k} \<longrightarrow>
            DhcpSendDiscoverPacket c options ks = DhcpSendDiscoverPacket c options ks'
          \<and> DhcpSendRequest c options ks offer = DhcpSendRequest c options ks' offer)
       \<and> map_option (mset \<circ> fst) (DhcpSendDiscoverPacket c options ks)
           = map_option (mset \<circ> fst) (DhcpSendDiscoverPacket c options ks')
       \<and> map_option (length \<circ> fst) (DhcpSendDiscoverPacket c options ks)
           = map_option (length \<circ> fst) (DhcpSendDiscoverPacket c options ks')
       \<and> map_option (mset \<circ> fst) (DhcpSendRequest c options ks offer)
           = map_option (mset \<circ> fst) (DhcpSendRequest c options ks' offer)
       \<and> map_option (length \<circ> fst) (DhcpSendRequest c options ks offer)
           = map_option (length \<circ> fst) (DhcpSendRequest c options ks' offer)"
proof -
  have len: "map_option (length \<circ> fst) x = map_option (length \<circ> fst) y"
    if "map_option (mset \<circ> fst) x = map_option (mset \<circ> fst) y"
    for x y :: "(Packet \<times> error option) option"
    using that by (cases x; cases y) (auto dest: mset_eq_length)
  have single: "dom options \<subseteq> {k} \<longrightarrow> ks = ks'"
    using assms by (auto dest: rangeOrder_single)
  show ?thesis
    using single len DhcpSendDiscoverPacket_mset [OF assms, of c]
      DhcpSendRequest_mset [OF assms, of c offer]
    by blast
qed

theorem DhcpSend_options_order_witness:
  "rangeOrder opts0 [53, 61] \<and> rangeOrder opts0 [61, 53]
   \<and> map_option (mset \<circ> fst) (DhcpSendDiscoverPacket (client0 5 None) opts0 [53, 61])
       = Some (mset request0)
   \<and> map_option (length \<circ> fst) (DhcpSendDiscoverPacket (client0 5 None) opts0 [53, 61])
       = Some 272
   \<and> rangeOrder opts1 [53] \<and> dom opts1 \<subseteq> {53}
   \<and> DhcpSendDiscoverPacket (client0 5 None) opts1 [53]
       = DhcpSendDiscoverPacket (client0 5 None) opts1 [53]"
proof -
  have o1: "rangeOrder opts0 [53, 61]" and o2: "rangeOrder opts0 [61, 53]"
    by (auto simp: rangeOrder_def opts0_def)
  have o3: "rangeOrder opts1 [53]" and s: "dom opts1 \<subseteq> {53}"
    by (auto simp: rangeOrder_def opts1_def)
  have r: "DhcpSendDiscoverPacket (client0 5 None) opts0 [61, 53] = Some (request0, None)"
    by (simp add: packet_eval request0_def butlast_append)
  have l: "length request0 = 272"
    by (simp add: request0_def)
  note t = DhcpSend_options_order [OF o1 o2, of 0 "client0 5 None" "[]"]
  have m: "map_option (mset \<circ> fst) (DhcpSendDiscoverPacket (client0 5 None) opts0 [53, 61])
       = Some (mset request0)"
    using t unfolding r by simp
  have n: "map_option (length \<circ> fst) (DhcpSendDiscoverPacket (client0 5 None) opts0 [53, 61])
       = Some 272"
    using t unfolding r by (simp add: l)
  show ?thesis
    using o1 o2 o3 s m n by blast
qed

text \<open>
  The claim as stated, that the two packets are byte-identical, fails for a dictionary
  of two options visited in the two possible orders: the options appear in the packet
  in the order of the visit.
\<close>

theorem DhcpSend_options_order_counterexample:
  "rangeOrder opts0 [53, 61] \<and> rangeOrder opts0 [61, 53]
   \<and> DhcpSendDiscoverPacket (client0 5 None) opts0 [53, 61] = Some (discover0, None)
   \<and> DhcpSendDiscoverPacket (client0 5 None) opts0 [61, 53] = Some (request0, None)
   \<and> discover0 \<noteq> request0"
proof -
  have o1: "rangeOrder opts0 [53, 61]" and o2: "rangeOrder opts0 [61, 53]"
    by (auto simp: rangeOrder_def opts0_def)
  have r: "DhcpSendDiscoverPacket (client0 5 None) opts0 [61, 53] = Some (request0, None)"
    by (simp add: packet_eval request0_def butlast_append)
  have "discover0 \<noteq> request0"
    by (simp add: discover0_def request0_def)
  with o1 o2 r discover_run [of 5 None] show ?thesis by simp
qed

subsection \<open>The full request\<close>

text \<open>
  C8. \<open>DhcpRequest\<close> returns a triple of success, packet and error. A failure of the
  send or of the receive in any of the four phases (sending the discover, receiving the
  offer, sending the request, receiving the acknowledgement) returns \<open>False\<close> with
  that phase's error. When all four succeed, the result is \<open>True\<close> exactly when the
  message type of the reply is \<open>ACK\<close>, and the error is \<open>nil\<close>. Conversely a result
  \<open>True\<close> comes with no error and a reply of type \<open>ACK\<close>, and a result \<open>False\<close>
  without error comes with a reply of another type.
\<close>

theorem DhcpRequest_result:
  "(DhcpSendDiscoverPacket c options ks1 = Some (dp, Some e) \<longrightarrow>
      DhcpRequest c options ks1 ks2 = Some (False, dp, Some e))
   \<and> (DhcpSendDiscoverPacket c options ks1 = Some (dp, None) \<and> GetOffer c dp = (op, Some e) \<longrightarrow>
      DhcpRequest c options ks1 ks2 = Some (False, op, Some e))
   \<and> (DhcpSendDiscoverPacket c options ks1 = Some (dp, None) \<and> GetOffer c dp = (op, None)
        \<and> DhcpSendRequest c options ks2 op = Some (rp, Some e) \<longrightarrow>
      DhcpRequest c options ks1 ks2 = Some (False, rp, Some e))
   \<and> (DhcpSendDiscoverPacket c options ks1 = Some (dp, None) \<and> GetOffer c dp = (op, None)
        \<and> DhcpSendRequest c options ks2 op = Some (rp, None)
        \<and> GetAcknowledgement c rp = (ak, Some e) \<longrightarrow>
      DhcpRequest c options ks1 ks2 = Some (False, ak, Some e))
   \<and> (DhcpSendDiscoverPacket c options ks1 = Some (dp, None) \<and> GetOffer c dp = (op, None)
        \<and> DhcpSendRequest c options ks2 op = Some (rp, None)
        \<and> GetAcknowledgement c rp = (ak, None)
        \<and> ParseOptions c ak OptionDHCPMessageType = Some (t # ts) \<longrightarrow>
      DhcpRequest c options ks1 ks2 = Some (t = ACK, ak, None))
   \<and> (DhcpRequest c options ks1 ks2 = Some (True, pkt, err) \<longrightarrow>
      err = None \<and> (\<exists>ts'. ParseOptions c pkt OptionDHCPMessageType = Some (ACK # ts')))
   \<and> (DhcpRequest c options ks1 ks2 = Some (False, pkt, None) \<longrightarrow>
      (\<exists>t' ts'. ParseOptions c pkt OptionDHCPMessageType = Some (t' # ts') \<and> t' \<noteq> ACK))"
  unfolding DhcpRequest_def
  by (auto split: option.splits prod.splits list.splits if_splits)


theorem DhcpRequest_result_witness:
  "DhcpRequest (client0 5 None) opts0 [53, 61] [61, 53]
     = Some (True, replicate 240 0 @ [53, 1, 5, 255], None)
   \<and> DhcpRequest (client0 6 None) opts0 [53, 61] [61, 53]
     = Some (False, replicate 240 0 @ [53, 1, 6, 255], None)
   \<and> DhcpRequest (client0 5 (Some ''network is unreachable'')) opts0 [53, 61] [61, 53]
     = Some (False, discover0, Some ''network is unreachable'')"
  using
    DhcpRequest_result [where c = "client0 5 None" and options = opts0 and ?ks1.0 = "[53, 61]"
      and ?ks2.0 = "[61, 53]" and dp = discover0
      and op = "replicate 240 0 @ [53, 1, 2, 255]" and rp = request0
      and ak = "replicate 240 0 @ [53, 1, 5, 255]" and t = 5 and ts = "[]"]
    DhcpRequest_result [where c = "client0 6 None" and options = opts0 and ?ks1.0 = "[53, 61]"
      and ?ks2.0 = "[61, 53]" and dp = discover0
      and op = "replicate 240 0 @ [53, 1, 2, 255]" and rp = request0
      and ak = "replicate 240 0 @ [53, 1, 6, 255]" and t = 6 and ts = "[]"]
    DhcpRequest_result [where c = "client0 5 (Some ''network is unreachable'')"
      and options = opts0 and ?ks1.0 = "[53, 61]" and ?ks2.0 = "[61, 53]" and dp = discover0
      and e = "''network is unreachable''"]
  by (simp add: discover_run request_run) (simp add: client0_def OptionDHCPMessageType_def ACK_def End_def)


section \<open>Properties of the lease store and the daemon\<close>

subsection \<open>Effects of the basic operations\<close>

lemma events_emit [simp]: "events (emit es w) = events w @ es"
  by (simp add: emit_def)

lemma leaseFile_emit [simp]: "leaseFile (emit es w) = leaseFile w"
  by (simp add: emit_def)

lemma emit_emit [simp]: "emit es (emit es' w) = emit (es' @ es) w"
  by (simp add: emit_def)

lemma PersistActiveLeases_eq:
  "PersistActiveLeases env ls w =
     (persistError env ls,
      w\<lparr>leaseFile := persistFile env ls (leaseFile w),
        events := events w @ PersistCalled # persistOutcome env ls\<rparr>)"
  by (simp add: PersistActiveLeases_def persistError_def persistFile_def persistOutcome_def
      emit_def Let_def split: sum.splits WriteResult.splits)

lemma clearLease_eq:
  "clearLease env cid d w =
     (d\<lparr>leases := (leases d)(cid := None)\<rparr>,
      w\<lparr>leaseFile := persistFile env ((leases d)(cid := None)) (leaseFile w),
        events := events w @ [MuxLock, LeasesDelete cid, PersistCalled]
          @ persistOutcome env ((leases d)(cid := None))
          @ (case persistError env ((leases d)(cid := None)) of
               Some err \<Rightarrow> [Printed (FailedToPersist err)] | None \<Rightarrow> [])
          @ [MuxUnlock]\<rparr>)"
  by (simp add: clearLease_def PersistActiveLeases_eq emit_def Let_def split: option.splits)

lemma Release_decoded:
  assumes "jsonUnmarshalNetConf env (StdinData args) = Inr conf"
  shows "Release env args d w =
     (case leases d (generateClientID (ContainerID args) (Name conf) (IfName args)) of
        None \<Rightarrow> (None, d, emit [MuxLock, MuxUnlock] w)
      | Some l \<Rightarrow>
          (None,
           clearLease env (generateClientID (ContainerID args) (Name conf) (IfName args)) d
             (emit [MuxLock, MuxUnlock, StopCalled l] w)))"
  using assms
  by (simp add: Release_def getLease_def Let_def split: option.splits prod.splits)

lemmas run_eval =
  env0_def args0_def dhcp0_def dhcp1_def world0_def world1_def lease0_def decoded_def
  rejected_def generateClientID_def persisted_def leasesToSave_def rangeOver_def
  List.map_filter_simps persistOutcome_def persistFile_def persistError_def

lemma Release_run:
  "Release (env0 Written PodFound decoded) args0 dhcp1 world1
     = (None, dhcp0,
        \<lparr> leaseFile = Some [],
          events = [MuxLock, MuxUnlock, StopCalled lease0, MuxLock,
                    LeasesDelete ''c1/net/eth0'', PersistCalled, FileWritten, MuxUnlock] \<rparr>)"
proof -
  have c: "jsonUnmarshalNetConf (env0 Written PodFound decoded) (StdinData args0)
     = Inr \<lparr> Name = ''net'', IPAM = \<lparr> ProvideOptions = [], RequestOptions = [] \<rparr> \<rparr>"
    by (simp add: env0_def args0_def)
  have g: "''c1/net/eth0'' = generateClientID (ContainerID args0)
      (Name \<lparr> Name = ''net'', IPAM = \<lparr> ProvideOptions = [], RequestOptions = [] \<rparr> \<rparr>)
      (IfName args0)"
    by (simp add: args0_def generateClientID_def)
  have l: "leases dhcp1 ''c1/net/eth0'' = Some lease0"
    by (simp add: dhcp1_def)
  show ?thesis
    unfolding Release_decoded [OF c] g [symmetric] l
    by (simp add: clearLease_eq emit_def) (simp add: run_eval)
qed

subsection \<open>Release\<close>

text \<open>
  C10. When the network configuration of a Release request decodes and the client
  identifier computed from it is not a key of the registry, Release returns no error
  and leaves the registry and the lease file as they are; it takes and releases the
  mutex once for the lookup and does nothing else: no lease is stopped and
  \<open>PersistActiveLeases\<close> is not called.
\<close>

theorem Release_absent:
  assumes "jsonUnmarshalNetConf env (StdinData args) = Inr conf"
    and "leases d (generateClientID (ContainerID args) (Name conf) (IfName args)) = None"
  shows "Release env args d w = (None, d, w\<lparr>events := events w @ [MuxLock, MuxUnlock]\<rparr>)"
  unfolding Release_decoded [OF assms(1)]
  using assms(2) by (simp add: emit_def)

theorem Release_absent_witness:
  "jsonUnmarshalNetConf (env0 Written PodFound decoded) (StdinData args0)
     = Inr \<lparr> Name = ''net'', IPAM = \<lparr> ProvideOptions = [], RequestOptions = [] \<rparr> \<rparr>
   \<and> leases dhcp0 (generateClientID ''c1'' ''net'' ''eth0'') = None
   \<and> Release (env0 Written PodFound decoded) args0 dhcp0 world1
       = (None, dhcp0, \<lparr> leaseFile = Some [persisted lease0], events = [MuxLock, MuxUnlock] \<rparr>)"
proof -
  have c: "jsonUnmarshalNetConf (env0 Written PodFound decoded) (StdinData args0)
     = Inr \<lparr> Name = ''net'', IPAM = \<lparr> ProvideOptions = [], RequestOptions = [] \<rparr> \<rparr>"
    by (simp add: env0_def args0_def)
  have a: "leases dhcp0 (generateClientID (ContainerID args0)
      (Name \<lparr> Name = ''net'', IPAM = \<lparr> ProvideOptions = [], RequestOptions = [] \<rparr> \<rparr>)
      (IfName args0)) = None"
    by (simp add: dhcp0_def)
  have n: "leases dhcp0 (generateClientID ''c1'' ''net'' ''eth0'') = None"
    by (simp add: dhcp0_def)
  show ?thesis
    using Release_absent [OF c a, of world1] c n by (simp add: world1_def)
qed

text \<open>
  C2 (as amended). When the network configuration of a Release request decodes and the
  client identifier computed from it is a key of the registry, Release looks the lease
  up under the mutex, releases the mutex and calls \<open>Stop\<close> on the lease, and only then
  takes the mutex again, deletes the entry, calls \<open>PersistActiveLeases\<close> on the
  registry without the entry and releases the mutex. A failure of the encoding or of
  the write is printed. Release returns no error.
\<close>

theorem Release_present:
  assumes "jsonUnmarshalNetConf env (StdinData args) = Inr conf"
    and "cid = generateClientID (ContainerID args) (Name conf) (IfName args)"
    and "leases d cid = Some l"
  shows "Release env args d w =
     (None,
      d\<lparr>leases := (leases d)(cid := None)\<rparr>,
      w\<lparr>leaseFile := persistFile env ((leases d)(cid := None)) (leaseFile w),
        events := events w
          @ [MuxLock, MuxUnlock, StopCalled l, MuxLock, LeasesDelete cid, PersistCalled]
          @ persistOutcome env ((leases d)(cid := None))
          @ (case persistError env ((leases d)(cid := None)) of
               Some err \<Rightarrow> [Printed (FailedToPersist err)] | None \<Rightarrow> [])
          @ [MuxUnlock]\<rparr>)"
proof -
  have "leases d (generateClientID (ContainerID args) (Name conf) (IfName args)) = Some l"
    using assms(2,3) by simp
  then show ?thesis
    unfolding Release_decoded [OF assms(1)]
    by (simp add: clearLease_eq emit_def assms(2))
qed

theorem Release_present_witness:
  "jsonUnmarshalNetConf (env0 Written PodFound decoded) (StdinData args0)
     = Inr \<lparr> Name = ''net'', IPAM = \<lparr> ProvideOptions = [], RequestOptions = [] \<rparr> \<rparr>
   \<and> leases dhcp1 (generateClientID ''c1'' ''net'' ''eth0'') = Some lease0
   \<and> Release (env0 Written PodFound decoded) args0 dhcp1 world1
       = (None, dhcp0,
          \<lparr> leaseFile = Some [],
            events = [MuxLock, MuxUnlock, StopCalled lease0, MuxLock,
                      LeasesDelete ''c1/net/eth0'', PersistCalled, FileWritten, MuxUnlock] \<rparr>)"
proof -
  have c: "jsonUnmarshalNetConf (env0 Written PodFound decoded) (StdinData args0)
     = Inr \<lparr> Name = ''net'', IPAM = \<lparr> ProvideOptions = [], RequestOptions = [] \<rparr> \<rparr>"
    by (simp add: env0_def args0_def)
  have g: "''c1/net/eth0'' = generateClientID (ContainerID args0)
      (Name \<lparr> Name = ''net'', IPAM = \<lparr> ProvideOptions = [], RequestOptions = [] \<rparr> \<rparr>)
      (IfName args0)"
    by (simp add: args0_def generateClientID_def)
  have l: "leases dhcp1 ''c1/net/eth0'' = Some lease0"
    by (simp add: dhcp1_def)
  have l': "leases dhcp1 (generateClientID ''c1'' ''net'' ''eth0'') = Some lease0"
    by (simp add: dhcp1_def generateClientID_def)
  show ?thesis
    using Release_present [OF c g l, of world1] c l'
    by (simp add: run_eval)
qed

text \<open>
  The claim as stated has the lease removed from the registry before it is stopped. In
  the run that releases \<open>lease0\<close> the call of \<open>Stop\<close> comes before the deletion of the
  entry, and no call of \<open>Stop\<close> follows the deletion.
\<close>

theorem Release_present_counterexample:
  "leases dhcp1 (generateClientID ''c1'' ''net'' ''eth0'') = Some lease0
   \<and> precedes (StopCalled lease0) (LeasesDelete ''c1/net/eth0'')
        (events (snd (snd (Release (env0 Written PodFound decoded) args0 dhcp1 world1))))
   \<and> \<not> precedes (LeasesDelete ''c1/net/eth0'') (StopCalled lease0)
        (events (snd (snd (Release (env0 Written PodFound decoded) args0 dhcp1 world1))))"
  by (simp add: Release_run) (simp add: dhcp1_def generateClientID_def)

subsection \<open>Allocate, and what does not depend on the write\<close>

lemma setLease_eq:
  "setLease cid l d w =
     (d\<lparr>leases := (leases d)(cid \<mapsto> l)\<rparr>,
      w\<lparr>events := events w @ [MuxLock, LeasesSet cid, MuxUnlock]\<rparr>)"
  by (simp add: setLease_def emit_def)





lemma Allocate_run:
  "Allocate (env0 written PodFound decoded) args0 dhcp0 world0
     = (Inr result0, dhcp1,
        \<lparr> leaseFile = (case written of Written \<Rightarrow> Some [persisted lease0]
                        | WriteFailed left \<Rightarrow> left),
          events = [MuxLock, LeasesSet ''c1/net/eth0'', MuxUnlock, PersistCalled]
                   @ (case written of Written \<Rightarrow> [FileWritten]
                      | WriteFailed left \<Rightarrow> [Printed ErrorWhileSaving]) \<rparr>)"
  by (simp add: Allocate_def setLease_eq PersistActiveLeases_eq run_eval result0_def Let_def
      split: WriteResult.splits)

lemma env0_conf:
  "jsonUnmarshalNetConf (env0 written pod decode) (StdinData args0)
     = Inr \<lparr> Name = ''net'', IPAM = \<lparr> ProvideOptions = [], RequestOptions = [] \<rparr> \<rparr>"
  by (simp add: env0_def args0_def)

lemma env0_rangeOrder_dhcp1:
  "rangeOrder (leases dhcp1) (rangeLeases (env0 written pod decode) (leases dhcp1))"
  by (simp add: rangeOrder_def env0_def dhcp1_def dhcp0_def)

lemma leasesToSave_WriteFile [simp]:
  "leasesToSave (env\<lparr>WriteFile := wr\<rparr>) ls = leasesToSave env ls"
  by (simp add: leasesToSave_def)

lemma persistError_WriteFile [simp]:
  "persistError (env\<lparr>WriteFile := wr\<rparr>) ls = persistError env ls"
  by (simp add: persistError_def)

lemma Allocate_WriteFile:
  "fst (Allocate (env\<lparr>WriteFile := wr\<rparr>) args d w) = fst (Allocate env args d w)"
  "fst (snd (Allocate (env\<lparr>WriteFile := wr\<rparr>) args d w)) = fst (snd (Allocate env args d w))"
  by (simp_all add: Allocate_def setLease_eq PersistActiveLeases_eq Let_def
      split: sum.splits prod.splits option.splits)

lemma Release_WriteFile:
  "fst (Release (env\<lparr>WriteFile := wr\<rparr>) args d w) = fst (Release env args d w)"
  "fst (snd (Release (env\<lparr>WriteFile := wr\<rparr>) args d w)) = fst (snd (Release env args d w))"
  by (simp_all add: Release_def getLease_def clearLease_eq Let_def
      split: sum.splits prod.splits option.splits)

lemma Release_no_error:
  "jsonUnmarshalNetConf env (StdinData args) = Inr conf \<Longrightarrow> fst (Release env args d w) = None"
  by (simp add: Release_def getLease_def clearLease_eq Let_def split: option.splits)

lemma LoadSavedLeases_no_records:
  "leaseFile w = Some file \<Longrightarrow> fst (jsonUnmarshal env file) = []
     \<Longrightarrow> LoadSavedLeases env tmo rmax bc w = (Inr [], w)"
  by (cases "jsonUnmarshal env file") (simp add: LoadSavedLeases_def)

subsection \<open>Persistence after a mutation of the registry\<close>




subsection \<open>Failures of persistence\<close>

text \<open>
  A failed write of the lease file is printed by \<open>PersistActiveLeases\<close>, which returns
  no error; the result of Allocate and of Release, and the registry they leave, are the
  same whatever the write does, and Release returns no error whenever the network
  configuration decodes.
\<close>

lemma write_failure_not_surfaced:
  "(jsonMarshal env (leasesToSave env ls) = Inr b \<and> WriteFile env b = WriteFailed left \<longrightarrow>
      PersistActiveLeases env ls w
        = (None, w\<lparr>leaseFile := left,
                   events := events w @ [PersistCalled, Printed ErrorWhileSaving]\<rparr>))
   \<and> fst (Allocate (env\<lparr>WriteFile := wr\<rparr>) args d w) = fst (Allocate env args d w)
   \<and> fst (snd (Allocate (env\<lparr>WriteFile := wr\<rparr>) args d w)) = fst (snd (Allocate env args d w))
   \<and> fst (Release (env\<lparr>WriteFile := wr\<rparr>) args d w) = fst (Release env args d w)
   \<and> fst (snd (Release (env\<lparr>WriteFile := wr\<rparr>) args d w)) = fst (snd (Release env args d w))
   \<and> (jsonUnmarshalNetConf env (StdinData args) = Inr conf \<longrightarrow>
        fst (Release env args d w) = None)"
  by (simp add: PersistActiveLeases_eq persistError_def persistFile_def persistOutcome_def
      Allocate_WriteFile Release_WriteFile Release_no_error)

lemma write_failure_run:
  "PersistActiveLeases (env0 (WriteFailed None) PodFound decoded) (leases dhcp1) world0
       = (None, \<lparr> leaseFile = None, events = [PersistCalled, Printed ErrorWhileSaving] \<rparr>)
   \<and> fst (Allocate (env0 (WriteFailed None) PodFound decoded) args0 dhcp0 world0) = Inr result0
   \<and> fst (Release (env0 (WriteFailed None) PodFound decoded) args0 dhcp1 world1) = None"
proof -
  let ?E = "env0 (WriteFailed None) PodFound decoded"
  have m: "jsonMarshal ?E (leasesToSave ?E (leases dhcp1)) = Inr [persisted lease0]"
    by (simp add: run_eval)
  have wr: "WriteFile ?E [persisted lease0] = WriteFailed None"
    by (simp add: env0_def)
  note t = write_failure_not_surfaced
    [where env = ?E and ls = "leases dhcp1" and b = "[persisted lease0]" and left = None
       and w = world0]
  have p: "PersistActiveLeases ?E (leases dhcp1) world0
       = (None, \<lparr> leaseFile = None, events = [PersistCalled, Printed ErrorWhileSaving] \<rparr>)"
    using t m wr by (simp add: world0_def)
  have a: "fst (Allocate ?E args0 dhcp0 world0) = Inr result0"
    by (simp add: Allocate_run)
  have r: "fst (Release ?E args0 dhcp1 world1) = None"
    using Release_no_error [OF env0_conf] .
  show ?thesis
    using p a r by simp
qed

text \<open>
  C4. The claim has every failure of persistence logged and none surfaced to the
  caller of an RPC. For a failed write the code does this, as shown above. For a failed
  parse of the lease file on load it does not log: \<open>LoadSavedLeases\<close> assigns the error
  of the decoder and never reads it. With a lease file that the decoder rejects,
  \<open>LoadSavedLeases\<close> returns no lease and no error and prints nothing, and \<open>newDHCP\<close>
  returns a daemon with an empty registry having printed nothing: its only events are
  the call of \<open>PersistActiveLeases\<close> and the write of the file. When instead the lease
  file cannot be read, \<open>LoadSavedLeases\<close> returns the error and \<open>newDHCP\<close> prints it.
\<close>

theorem LoadSavedLeases_parse_failure_unlogged:
  "leaseFile world1 = Some [persisted lease0]
   \<and> snd (jsonUnmarshal (env0 Written PodFound rejected) [persisted lease0])
       = Some ''unexpected end of JSON input''
   \<and> LoadSavedLeases (env0 Written PodFound rejected) 10 62 False world1 = (Inr [], world1)
   \<and> fst (newDHCP (env0 Written PodFound rejected) 10 62 False world1) = Inr dhcp0
   \<and> events (snd (newDHCP (env0 Written PodFound rejected) 10 62 False world1))
       = [PersistCalled, FileWritten]
   \<and> leaseFile world0 = None
   \<and> fst (newDHCP (env0 Written PodFound rejected) 10 62 False world0) = Inr dhcp0
   \<and> events (snd (newDHCP (env0 Written PodFound rejected) 10 62 False world0))
       = [Printed (FailedToLoadLeases ''open /run/dhcp-leases.json: no such file or directory''),
          PersistCalled, FileWritten]"
proof -
  let ?R = "env0 Written PodFound rejected"
  have f: "leaseFile world1 = Some [persisted lease0]"
    by (simp add: world1_def)
  have u: "jsonUnmarshal ?R [persisted lease0] = ([], Some ''unexpected end of JSON input'')"
    by (simp add: env0_def rejected_def)
  have l: "LoadSavedLeases ?R 10 62 False world1 = (Inr [], world1)"
    using f u by (simp add: LoadSavedLeases_no_records)
  have n: "newDHCP ?R 10 62 False world1
     = (Inr dhcp0, \<lparr> leaseFile = Some [], events = [PersistCalled, FileWritten] \<rparr>)"
    unfolding newDHCP_def l
    by (simp add: PersistActiveLeases_eq) (simp add: run_eval)
  have f0: "leaseFile world0 = None"
    by (simp add: world0_def)
  have l0: "LoadSavedLeases ?R 10 62 False world0
     = (Inl ''open /run/dhcp-leases.json: no such file or directory'', world0)"
    by (simp add: LoadSavedLeases_def f0)
  have n0: "newDHCP ?R 10 62 False world0
     = (Inr dhcp0,
        \<lparr> leaseFile = Some [],
          events = [Printed (FailedToLoadLeases
                      ''open /run/dhcp-leases.json: no such file or directory''),
                    PersistCalled, FileWritten] \<rparr>)"
    unfolding newDHCP_def l0
    by (simp add: PersistActiveLeases_eq emit_def) (simp add: run_eval)
  show ?thesis
    using f u l n f0 n0 by simp
qed

subsection \<open>Loading the lease file\<close>

lemma loadLoop_all:
  assumes "\<forall>r\<in>set recs. netnsGone env r \<or> resolvedLink env r \<noteq> None"
  shows "fst (loadLoop env tmo rmax bc recs acc w)
           = Inr (acc @ List.map_filter (reloadedLease env tmo rmax bc) recs)"
  using assms
proof (induction recs arbitrary: acc w)
  case Nil
  then show ?case by (simp add: List.map_filter_simps)
next
  case (Cons r recs)
  then show ?case
    by (auto simp: List.map_filter_simps netnsGone_def resolvedLink_def reloadedLease_def
        split: NSResult.splits sum.splits)
qed

lemma loadLoop_fatal:
  assumes "\<exists>r\<in>set recs. \<not> netnsGone env r \<and> resolvedLink env r = None"
  shows "\<exists>err. fst (loadLoop env tmo rmax bc recs acc w) = Inl err"
  using assms
proof (induction recs arbitrary: acc w)
  case Nil
  then show ?case by simp
next
  case (Cons r recs)
  show ?case
  proof (cases "\<not> netnsGone env r \<and> resolvedLink env r = None")
    case True
    then show ?thesis
      by (auto simp: netnsGone_def resolvedLink_def split: NSResult.splits sum.splits)
  next
    case False
    with Cons.prems have rest: "\<exists>r\<in>set recs. \<not> netnsGone env r \<and> resolvedLink env r = None"
      by auto
    note ih = Cons.IH [OF rest]
    from False show ?thesis
      by (auto simp: netnsGone_def resolvedLink_def ih split: NSResult.splits sum.splits)
  qed
qed

lemma loadLoop_leaseFile:
  "leaseFile (snd (loadLoop env tmo rmax bc recs acc w)) = leaseFile w"
  by (induction recs arbitrary: acc w) (simp_all split: NSResult.splits sum.splits)

lemma started_append [simp]: "started (es @ es') = started es @ started es'"
  by (induction es rule: started.induct) simp_all

lemma loadLoop_started:
  "started (events (snd (loadLoop env tmo rmax bc recs acc w))) = started (events w)"
  by (induction recs arbitrary: acc w) (simp_all split: NSResult.splits sum.splits)

lemma reloaded_persisted:
  "reloaded (persisted v) lnk tmo rmax bc
     = v\<lparr>link := lnk, timeout := tmo, resendMax := rmax, broadcast := bc\<rparr>"
  by (simp add: reloaded_def persisted_def)

lemma sameRecord_reloaded:
  "resolvedLink env (persisted v) = Some lnk
     \<Longrightarrow> sameRecord env v (reloaded (persisted v) lnk tmo rmax bc)"
  by (simp add: sameRecord_def reloaded_persisted)

lemma map_filter_reloaded:
  assumes "\<forall>v\<in>set vs. resolvedLink env (persisted v) \<noteq> None"
  shows "list_all2 (sameRecord env) vs
           (List.map_filter (reloadedLease env tmo rmax bc) (map persisted vs))"
  using assms
proof (induction vs)
  case Nil
  then show ?case by (simp add: List.map_filter_simps)
next
  case (Cons v vs)
  then obtain lnk where "resolvedLink env (persisted v) = Some lnk" by auto
  with Cons show ?case
    by (simp add: List.map_filter_simps reloadedLease_def sameRecord_reloaded)
qed


lemma LoadSavedLeases_content:
  assumes "leaseFile w = Some content" and "fst (jsonUnmarshal env content) = recs"
  shows "LoadSavedLeases env tmo rmax bc w = loadLoop env tmo rmax bc recs [] w"
  using assms by (cases "jsonUnmarshal env content") (simp add: LoadSavedLeases_def)

lemma netnsGone_reloadedLease:
  "netnsGone env r \<Longrightarrow> reloadedLease env tmo rmax bc r = None"
  by (simp add: netnsGone_def reloadedLease_def resolvedLink_def)

lemma nolink_resolvedLink:
  "WithNetNSPath env (NetNs r) = NSEntered \<Longrightarrow> LinkByName env (NetNs r) (LinkName r) = Inl e
     \<Longrightarrow> \<not> netnsGone env r \<and> resolvedLink env r = None"
  by (simp add: netnsGone_def resolvedLink_def)

lemma rangeOver_values:
  assumes "rangeOrder ls ks"
  shows "set (map snd (rangeOver ls ks)) = ran ls"
    and "length (rangeOver ls ks) = card (dom ls)"
proof -
  have d: "distinct ks" and s: "set ks = dom ls"
    using assms by (simp_all add: rangeOrder_def)
  have r: "rangeOver ls ks = map (\<lambda>k. (k, the (ls k))) ks"
    using s by (simp add: rangeOver_map)
  have "(\<lambda>k. the (ls k)) ` dom ls = ran ls"
    by (force simp: ran_def dom_def image_iff)
  then show "set (map snd (rangeOver ls ks)) = ran ls"
    by (simp add: r image_image flip: s)
  show "length (rangeOver ls ks) = card (dom ls)"
    using d by (simp add: r distinct_card flip: s)
qed

lemma leasesToSave_map:
  "leasesToSave env ls = map persisted (map snd (rangeOver ls (rangeLeases env ls)))"
  by (simp add: leasesToSave_def case_prod_unfold comp_def)

lemma env0_resolved_lease0:
  "resolvedLink (env0 written pod decode) (persisted lease0) = Some (Link ''eth0'' 2)"
  by (simp add: resolvedLink_def env0_def persisted_def lease0_def)

lemma env0_recordGone:
  "netnsGone (env0 written pod decode) recordGone"
  by (simp add: netnsGone_def env0_def recordGone_def persisted_def lease0_def)

lemma env0_recordNoLink:
  "WithNetNSPath (env0 written pod decode) (NetNs recordNoLink) = NSEntered"
  "LinkByName (env0 written pod decode) (NetNs recordNoLink) (LinkName recordNoLink)
     = Inl ''Link not found''"
  by (simp_all add: env0_def recordNoLink_def persisted_def lease0_def)

lemma reloaded_lease0:
  "reloaded (persisted lease0) (Link ''eth0'' 2) 10 62 False = lease0"
  by (simp add: reloaded_def persisted_def lease0_def)

text \<open>
  C5 (as amended). When the records of the lease file are loaded, a record whose
  namespace path no longer exists is skipped and yields no lease, and loading continues
  with the remaining records: if every record either has lost its namespace or resolves
  its link, the result is the list of the leases of the records that resolve, in the
  order of the file. A record whose namespace can be entered but whose link cannot be
  resolved is fatal for the whole load: \<open>LoadSavedLeases\<close> returns an error and no
  lease at all. The same holds for a record whose namespace exists and cannot be entered.
\<close>

theorem LoadSavedLeases_records:
  assumes "leaseFile w = Some content" and "fst (jsonUnmarshal env content) = recs"
  shows "((\<forall>r\<in>set recs. netnsGone env r \<or> resolvedLink env r \<noteq> None) \<longrightarrow>
            fst (LoadSavedLeases env tmo rmax bc w)
              = Inr (List.map_filter (reloadedLease env tmo rmax bc) recs))
       \<and> (netnsGone env r \<longrightarrow> reloadedLease env tmo rmax bc r = None)
       \<and> (r \<in> set recs \<and> WithNetNSPath env (NetNs r) = NSEntered
            \<and> LinkByName env (NetNs r) (LinkName r) = Inl e \<longrightarrow>
            (\<exists>err. fst (LoadSavedLeases env tmo rmax bc w) = Inl err))
       \<and> ((\<exists>r\<in>set recs. \<not> netnsGone env r \<and> resolvedLink env r = None) \<longrightarrow>
            (\<exists>err. fst (LoadSavedLeases env tmo rmax bc w) = Inl err))"
proof -
  note eq = LoadSavedLeases_content [OF assms]
  have fatal: "\<exists>err. fst (LoadSavedLeases env tmo rmax bc w) = Inl err"
    if "\<exists>r\<in>set recs. \<not> netnsGone env r \<and> resolvedLink env r = None"
    using loadLoop_fatal [OF that] by (simp add: eq)
  have one: "\<exists>err. fst (LoadSavedLeases env tmo rmax bc w) = Inl err"
    if "r \<in> set recs \<and> WithNetNSPath env (NetNs r) = NSEntered
        \<and> LinkByName env (NetNs r) (LinkName r) = Inl e"
    using that nolink_resolvedLink [of env r e] by (intro fatal) blast
  have ok: "fst (LoadSavedLeases env tmo rmax bc w)
              = Inr (List.map_filter (reloadedLease env tmo rmax bc) recs)"
    if "\<forall>r\<in>set recs. netnsGone env r \<or> resolvedLink env r \<noteq> None"
    using loadLoop_all [OF that] by (simp add: eq)
  show ?thesis
    using ok one fatal netnsGone_reloadedLease [of env r] by blast
qed

theorem LoadSavedLeases_records_witness:
  "netnsGone (env0 Written PodFound decoded) recordGone
   \<and> resolvedLink (env0 Written PodFound decoded) (persisted lease0) = Some (Link ''eth0'' 2)
   \<and> fst (LoadSavedLeases (env0 Written PodFound decoded) 10 62 False
            \<lparr> leaseFile = Some [recordGone, persisted lease0], events = [] \<rparr>)
       = Inr [lease0]
   \<and> WithNetNSPath (env0 Written PodFound decoded) (NetNs recordNoLink) = NSEntered
   \<and> LinkByName (env0 Written PodFound decoded) (NetNs recordNoLink) (LinkName recordNoLink)
       = Inl ''Link not found''
   \<and> (\<exists>err. fst (LoadSavedLeases (env0 Written PodFound decoded) 10 62 False
                   \<lparr> leaseFile = Some [persisted lease0, recordNoLink], events = [] \<rparr>)
              = Inl err)"
proof -
  let ?E = "env0 Written PodFound decoded"
  let ?w1 = "\<lparr> leaseFile = Some [recordGone, persisted lease0], events = [] \<rparr>
               :: PersistedLeased list World"
  let ?w2 = "\<lparr> leaseFile = Some [persisted lease0, recordNoLink], events = [] \<rparr>
               :: PersistedLeased list World"
  have f1: "leaseFile ?w1 = Some [recordGone, persisted lease0]"
    and f2: "leaseFile ?w2 = Some [persisted lease0, recordNoLink]"
    by simp_all
  have u: "fst (jsonUnmarshal ?E content) = content" for content
    by (simp add: env0_def decoded_def)
  note g = env0_recordGone [of Written PodFound decoded]
  note r = env0_resolved_lease0 [of Written PodFound decoded]
  note n = env0_recordNoLink [of Written PodFound decoded]
  note t1 = LoadSavedLeases_records
    [OF f1 u, where r = recordGone and tmo = 10 and rmax = 62 and bc = False]
  note t2 = LoadSavedLeases_records
    [OF f2 u, where r = recordNoLink and tmo = 10 and rmax = 62 and bc = False
       and e = "''Link not found''"]
  have rg: "reloadedLease ?E 10 62 False recordGone = None"
    using t1 g by blast
  have rl: "reloadedLease ?E 10 62 False (persisted lease0) = Some lease0"
    by (simp add: reloadedLease_def r reloaded_lease0)
  have m: "List.map_filter (reloadedLease ?E 10 62 False) [recordGone, persisted lease0]
             = [lease0]"
    by (simp add: List.map_filter_simps rg rl)
  have all: "\<forall>x\<in>set [recordGone, persisted lease0].
               netnsGone ?E x \<or> resolvedLink ?E x \<noteq> None"
    using g r by simp
  have a: "fst (LoadSavedLeases ?E 10 62 False ?w1) = Inr [lease0]"
    using t1 all unfolding m by blast
  have b: "\<exists>err. fst (LoadSavedLeases ?E 10 62 False ?w2) = Inl err"
    using t2 n by simp
  show ?thesis
    using g r a n b by blast
qed

text \<open>
  The claim as stated has every other loadable record still returned. With a file of
  two records, the first loadable and the second with a link that does not exist in
  its namespace, \<open>LoadSavedLeases\<close> returns the error of the second and no lease.
\<close>

theorem LoadSavedLeases_records_counterexample:
  "resolvedLink (env0 Written PodFound decoded) (persisted lease0) = Some (Link ''eth0'' 2)
   \<and> WithNetNSPath (env0 Written PodFound decoded) (NetNs recordNoLink) = NSEntered
   \<and> LinkByName (env0 Written PodFound decoded) (NetNs recordNoLink) (LinkName recordNoLink)
       = Inl ''Link not found''
   \<and> LoadSavedLeases (env0 Written PodFound decoded) 10 62 False
        \<lparr> leaseFile = Some [persisted lease0, recordNoLink], events = [] \<rparr>
       = (Inl ''couldn't look up link: error looking up: Link not found'',
          \<lparr> leaseFile = Some [persisted lease0, recordNoLink], events = [] \<rparr>)"
proof -
  let ?E = "env0 Written PodFound decoded"
  have l: "LoadSavedLeases ?E 10 62 False
        \<lparr> leaseFile = Some [persisted lease0, recordNoLink], events = [] \<rparr>
       = (Inl ''couldn't look up link: error looking up: Link not found'',
          \<lparr> leaseFile = Some [persisted lease0, recordNoLink], events = [] \<rparr>)"
    by (simp add: LoadSavedLeases_def env0_def decoded_def recordNoLink_def persisted_def
        lease0_def)
  show ?thesis
    using env0_resolved_lease0 [of Written PodFound decoded]
      env0_recordNoLink [of Written PodFound decoded] l
    by simp
qed

subsection \<open>Writing the lease file and loading it again\<close>

text \<open>
  C6. Let the registry be written by \<open>PersistActiveLeases\<close> and the file be read back
  by \<open>LoadSavedLeases\<close>, where the loop over the registry visits each key once, the
  records are encoded and written, the decoder returns the records that were encoded,
  and the link name of every lease resolves in its namespace. Then the write reports
  no error and the load returns one lease for each lease of the registry, in the order
  in which they were written, with the same client id, acknowledgement, renewal,
  rebinding and expiry times, workload namespace and name and namespace path; its link
  is the one that the link name resolves to.
\<close>

theorem persist_load_roundtrip:
  assumes "rangeOrder ls (rangeLeases env ls)"
    and "jsonMarshal env (leasesToSave env ls) = Inr b"
    and "WriteFile env b = Written"
    and "fst (jsonUnmarshal env b) = leasesToSave env ls"
    and "\<forall>v\<in>ran ls. resolvedLink env (persisted v) \<noteq> None"
  shows "\<exists>loaded.
           fst (PersistActiveLeases env ls w) = None
         \<and> fst (LoadSavedLeases env tmo rmax bc (snd (PersistActiveLeases env ls w))) = Inr loaded
         \<and> list_all2 (sameRecord env) (map snd (rangeOver ls (rangeLeases env ls))) loaded
         \<and> set (map snd (rangeOver ls (rangeLeases env ls))) = ran ls
         \<and> length loaded = card (dom ls)"
proof -
  let ?vs = "map snd (rangeOver ls (rangeLeases env ls))"
  let ?w1 = "snd (PersistActiveLeases env ls w)"
  let ?loaded = "List.map_filter (reloadedLease env tmo rmax bc) (map persisted ?vs)"
  have vs: "set ?vs = ran ls" and len: "length ?vs = card (dom ls)"
    using rangeOver_values [OF assms(1)] by simp_all
  have p: "fst (PersistActiveLeases env ls w) = None"
    using assms(2) by (simp add: PersistActiveLeases_eq persistError_def)
  have f: "leaseFile ?w1 = Some b"
    using assms(2,3) by (simp add: PersistActiveLeases_eq persistFile_def)
  have recs: "fst (jsonUnmarshal env b) = map persisted ?vs"
    using assms(4) by (simp add: leasesToSave_map)
  have res: "\<forall>v\<in>set ?vs. resolvedLink env (persisted v) \<noteq> None"
    using assms(5) vs by blast
  then have "\<forall>r\<in>set (map persisted ?vs). netnsGone env r \<or> resolvedLink env r \<noteq> None"
    by auto
  from loadLoop_all [OF this]
  have l: "fst (LoadSavedLeases env tmo rmax bc ?w1) = Inr ?loaded"
    by (simp add: LoadSavedLeases_content [OF f recs])
  have rel: "list_all2 (sameRecord env) ?vs ?loaded"
    using res by (rule map_filter_reloaded)
  then have "length ?loaded = card (dom ls)"
    using len by (simp add: list_all2_lengthD [symmetric])
  with p l rel vs show ?thesis by blast
qed


theorem persist_load_roundtrip_witness:
  "rangeOrder (leases dhcp1) (rangeLeases (env0 Written PodFound decoded) (leases dhcp1))
   \<and> jsonMarshal (env0 Written PodFound decoded)
        (leasesToSave (env0 Written PodFound decoded) (leases dhcp1)) = Inr [persisted lease0]
   \<and> WriteFile (env0 Written PodFound decoded) [persisted lease0] = Written
   \<and> fst (jsonUnmarshal (env0 Written PodFound decoded) [persisted lease0])
       = leasesToSave (env0 Written PodFound decoded) (leases dhcp1)
   \<and> ran (leases dhcp1) = {lease0}
   \<and> resolvedLink (env0 Written PodFound decoded) (persisted lease0) = Some (Link ''eth0'' 2)
   \<and> fst (LoadSavedLeases (env0 Written PodFound decoded) 5 30 True
            (snd (PersistActiveLeases (env0 Written PodFound decoded) (leases dhcp1) world0)))
       = Inr [lease0\<lparr>timeout := 5, resendMax := 30, broadcast := True\<rparr>]
   \<and> sameRecord (env0 Written PodFound decoded) lease0
        (lease0\<lparr>timeout := 5, resendMax := 30, broadcast := True\<rparr>)"
proof -
  let ?E = "env0 Written PodFound decoded"
  have o: "rangeOrder (leases dhcp1) (rangeLeases ?E (leases dhcp1))"
    by (rule env0_rangeOrder_dhcp1)
  have m: "jsonMarshal ?E (leasesToSave ?E (leases dhcp1)) = Inr [persisted lease0]"
    by (simp add: run_eval)
  have wr: "WriteFile ?E [persisted lease0] = Written"
    by (simp add: env0_def)
  have s: "leasesToSave ?E (leases dhcp1) = [persisted lease0]"
    by (simp add: run_eval)
  have u: "fst (jsonUnmarshal ?E [persisted lease0]) = leasesToSave ?E (leases dhcp1)"
    by (simp add: s) (simp add: env0_def decoded_def)
  have ran1: "ran (leases dhcp1) = {lease0}"
    by (simp add: dhcp1_def dhcp0_def)
  note r = env0_resolved_lease0 [of Written PodFound decoded]
  have res: "\<forall>v\<in>ran (leases dhcp1). resolvedLink ?E (persisted v) \<noteq> None"
    by (simp add: ran1 r)
  have vs: "map snd (rangeOver (leases dhcp1) (rangeLeases ?E (leases dhcp1))) = [lease0]"
    by (simp add: run_eval)
  from persist_load_roundtrip
    [OF o m wr u res, where w = world0 and tmo = 5 and rmax = 30 and bc = True]
  obtain loaded where
    l: "fst (LoadSavedLeases ?E 5 30 True (snd (PersistActiveLeases ?E (leases dhcp1) world0)))
          = Inr loaded"
    and rel: "list_all2 (sameRecord ?E) [lease0] loaded"
    unfolding vs by blast
  from rel obtain l0 where loaded: "loaded = [l0]" and same: "sameRecord ?E lease0 l0"
    by (auto simp: list_all2_Cons1)
  have direct: "fst (LoadSavedLeases ?E 5 30 True
                  (snd (PersistActiveLeases ?E (leases dhcp1) world0)))
      = Inr [lease0\<lparr>timeout := 5, resendMax := 30, broadcast := True\<rparr>]"
    by (simp add: PersistActiveLeases_eq LoadSavedLeases_def)
       (simp add: run_eval reloaded_def)
  with l loaded have "l0 = lease0\<lparr>timeout := 5, resendMax := 30, broadcast := True\<rparr>"
    by simp
  with same direct o m wr u ran1 r show ?thesis
    by simp
qed

subsection \<open>Reconciliation at startup\<close>

lemma keepLease_eq:
  "keepLease env val d w =
     (map_option (\<lambda>err. ''failed to start maintaining lease: '' @ err) (StartMaintaining env val),
      d\<lparr>leases := (leases d)(clientID val \<mapsto> val)\<rparr>,
      w\<lparr>events := events w
          @ [MuxLock, LeasesSet (clientID val), MuxUnlock, StartMaintainingCalled val]\<rparr>)"
  by (simp add: keepLease_def setLease_eq emit_def split: option.splits)

lemma not_kept_cases:
  "\<not> kept env v \<Longrightarrow> dropped env v \<or> queryFailed env v"
  by (auto simp: kept_def dropped_def queryFailed_def split: PodStatus.splits)

lemma dropped_not_kept: "dropped env v \<Longrightarrow> \<not> kept env v"
  by (auto simp: kept_def dropped_def)

lemma queryFailed_not_kept: "queryFailed env v \<Longrightarrow> \<not> kept env v \<and> \<not> dropped env v"
  by (auto simp: kept_def dropped_def queryFailed_def split: PodStatus.splits)

lemma reconcile_step_kept:
  assumes "kept env v"
  shows "reconcile env (v # vals) d w =
     (case StartMaintaining env v of
        Some err \<Rightarrow>
          (Some (''failed to start maintaining lease: '' @ err),
           d\<lparr>leases := (leases d)(clientID v \<mapsto> v)\<rparr>,
           w\<lparr>events := events w
               @ (if k8sPodName v \<noteq> '''' then [PodsGetCalled (k8sNamespace v) (k8sPodName v)]
                  else [])
               @ [MuxLock, LeasesSet (clientID v), MuxUnlock, StartMaintainingCalled v]\<rparr>)
      | None \<Rightarrow>
          reconcile env vals (d\<lparr>leases := (leases d)(clientID v \<mapsto> v)\<rparr>)
            (w\<lparr>events := events w
               @ (if k8sPodName v \<noteq> '''' then [PodsGetCalled (k8sNamespace v) (k8sPodName v)]
                  else [])
               @ [MuxLock, LeasesSet (clientID v), MuxUnlock, StartMaintainingCalled v]\<rparr>))"
  using assms
  by (auto simp: kept_def keepLease_eq emit_def split: option.splits)

lemma reconcile_step_dropped:
  assumes "dropped env v"
  shows "reconcile env (v # vals) d w =
     reconcile env vals d
       (w\<lparr>events := events w
          @ [PodsGetCalled (k8sNamespace v) (k8sPodName v),
             Printed (PodNotFoundRemoving (k8sPodName v))]\<rparr>)"
  using assms by (simp add: dropped_def emit_def)

lemma reconcile_step_queryFailed:
  assumes "queryFailed env v"
  shows "fst (reconcile env (v # vals) d w) \<noteq> None"
  using assms by (auto simp: queryFailed_def split: PodStatus.splits)

lemma reconcile_queryFailed:
  assumes "\<exists>v\<in>set vals. queryFailed env v"
  shows "fst (reconcile env vals d w) \<noteq> None"
  using assms
proof (induction vals arbitrary: d w)
  case Nil
  then show ?case by simp
next
  case (Cons v vals)
  show ?case
  proof (cases "queryFailed env v")
    case True
    then show ?thesis by (rule reconcile_step_queryFailed)
  next
    case False
    with Cons.prems have rest: "\<exists>v\<in>set vals. queryFailed env v" by auto
    note ih = Cons.IH [OF rest]
    show ?thesis
    proof (cases "kept env v")
      case True
      then show ?thesis
        unfolding reconcile_step_kept [OF True]
        by (cases "StartMaintaining env v") (simp_all add: ih)
    next
      case nk: False
      with False have "dropped env v" using not_kept_cases by blast
      then have dr: "dropped env v" .
      show ?thesis
        unfolding reconcile_step_dropped [OF dr] by (rule ih)
    qed
  qed
qed

lemma reconcile_success:
  assumes "reconcile env vals d w = (None, d', w')"
  shows "leases d' = inserted (filter (kept env) vals) (leases d)
       \<and> started (events w') = started (events w) @ filter (kept env) vals
       \<and> (\<forall>v\<in>set vals. kept env v \<or> dropped env v)
       \<and> (\<forall>v\<in>set vals. kept env v \<longrightarrow> StartMaintaining env v = None)
       \<and> leaseFile w' = leaseFile w
       \<and> hostNetnsPrefix d' = hostNetnsPrefix d \<and> clientTimeout d' = clientTimeout d
       \<and> clientResendMax d' = clientResendMax d \<and> broadcastD d' = broadcastD d"
  using assms
proof (induction vals arbitrary: d w)
  case Nil
  then show ?case by simp
next
  case (Cons v vals)
  show ?case
  proof (cases "kept env v")
    case True
    define d1 where "d1 = d\<lparr>leases := (leases d)(clientID v \<mapsto> v)\<rparr>"
    define w1 where "w1 = w\<lparr>events := events w
               @ (if k8sPodName v \<noteq> '''' then [PodsGetCalled (k8sNamespace v) (k8sPodName v)]
                  else [])
               @ [MuxLock, LeasesSet (clientID v), MuxUnlock, StartMaintainingCalled v]\<rparr>"
    have d1: "leases d1 = (leases d)(clientID v \<mapsto> v)" "hostNetnsPrefix d1 = hostNetnsPrefix d"
      "clientTimeout d1 = clientTimeout d" "clientResendMax d1 = clientResendMax d"
      "broadcastD d1 = broadcastD d"
      by (simp_all add: d1_def)
    have w1: "started (events w1) = started (events w) @ [v]" "leaseFile w1 = leaseFile w"
      by (simp_all add: w1_def started_append)
    from Cons.prems obtain ok: "StartMaintaining env v = None"
      and rest: "reconcile env vals d1 w1 = (None, d', w')"
      unfolding reconcile_step_kept [OF True] d1_def w1_def
      by (cases "StartMaintaining env v") simp_all
    have ih: "leases d' = inserted (filter (kept env) vals) (leases d1)
       \<and> started (events w') = started (events w1) @ filter (kept env) vals
       \<and> (\<forall>v\<in>set vals. kept env v \<or> dropped env v)
       \<and> (\<forall>v\<in>set vals. kept env v \<longrightarrow> StartMaintaining env v = None)
       \<and> leaseFile w' = leaseFile w1
       \<and> hostNetnsPrefix d' = hostNetnsPrefix d1 \<and> clientTimeout d' = clientTimeout d1
       \<and> clientResendMax d' = clientResendMax d1 \<and> broadcastD d' = broadcastD d1"
      by (rule Cons.IH [OF rest])
    from ih True ok show ?thesis
      unfolding d1 w1 by simp
  next
    case False
    have nf: "\<not> queryFailed env v"
    proof
      assume "queryFailed env v"
      from reconcile_step_queryFailed [OF this, of vals d w] Cons.prems show False by simp
    qed
    with False have dr: "dropped env v" using not_kept_cases by blast
    define w1 where "w1 = w\<lparr>events := events w
          @ [PodsGetCalled (k8sNamespace v) (k8sPodName v),
             Printed (PodNotFoundRemoving (k8sPodName v))]\<rparr>"
    have w1: "started (events w1) = started (events w)" "leaseFile w1 = leaseFile w"
      by (simp_all add: w1_def started_append)
    from Cons.prems have rest: "reconcile env vals d w1 = (None, d', w')"
      unfolding reconcile_step_dropped [OF dr] w1_def .
    have ih: "leases d' = inserted (filter (kept env) vals) (leases d)
       \<and> started (events w') = started (events w1) @ filter (kept env) vals
       \<and> (\<forall>v\<in>set vals. kept env v \<or> dropped env v)
       \<and> (\<forall>v\<in>set vals. kept env v \<longrightarrow> StartMaintaining env v = None)
       \<and> leaseFile w' = leaseFile w1
       \<and> hostNetnsPrefix d' = hostNetnsPrefix d \<and> clientTimeout d' = clientTimeout d
       \<and> clientResendMax d' = clientResendMax d \<and> broadcastD d' = broadcastD d"
      by (rule Cons.IH [OF rest])
    from ih False dr show ?thesis
      unfolding w1 by simp
  qed
qed

lemma ran_inserted: "ran (inserted vs m) \<subseteq> ran m \<union> set vs"
proof (induction vs arbitrary: m)
  case Nil
  then show ?case by simp
next
  case (Cons v vs)
  have "ran (m(clientID v \<mapsto> v)) \<subseteq> ran m \<union> {v}"
    by (auto simp: ran_def)
  moreover have "ran (inserted vs (m(clientID v \<mapsto> v))) \<subseteq> ran (m(clientID v \<mapsto> v)) \<union> set vs"
    by (rule Cons.IH)
  ultimately show ?case by auto
qed

lemma dom_inserted: "dom (inserted vs m) = dom m \<union> clientID ` set vs"
  by (induction vs arbitrary: m) auto

lemma inserted_notin:
  "k \<notin> clientID ` set vs \<Longrightarrow> inserted vs m k = m k"
  by (induction vs arbitrary: m) auto

lemma inserted_distinct:
  assumes "distinct (map clientID vs)" and "v \<in> set vs"
  shows "inserted vs m (clientID v) = Some v"
  using assms
proof (induction vs arbitrary: m)
  case Nil
  then show ?case by simp
next
  case (Cons x xs)
  show ?case
  proof (cases "v = x")
    case True
    with Cons.prems have "clientID v \<notin> clientID ` set xs" by auto
    with True show ?thesis by (simp add: inserted_notin)
  next
    case False
    with Cons show ?thesis by auto
  qed
qed

lemma LoadSavedLeases_started:
  "started (events (snd (LoadSavedLeases env tmo rmax bc w))) = started (events w)"
  by (cases "leaseFile w"; cases "jsonUnmarshal env (the (leaseFile w))")
    (simp_all add: LoadSavedLeases_def loadLoop_started)

lemma PersistActiveLeases_started:
  "started (events (snd (PersistActiveLeases env ls w))) = started (events w)"
  by (simp add: PersistActiveLeases_eq persistOutcome_def started_append
      split: sum.splits WriteResult.splits)

lemma newDHCP_loaded:
  assumes "LoadSavedLeases env tmo rmax bc w = (Inr vals, w1)"
  shows "newDHCP env tmo rmax bc w =
     (case reconcile env vals
             \<lparr> leases = Map.empty, hostNetnsPrefix = '''', clientTimeout = tmo,
               clientResendMax = rmax, broadcastD = False \<rparr> w1 of
        (Some err, d1, w3) \<Rightarrow> (Inl err, w3)
      | (None, d1, w3) \<Rightarrow>
          (case PersistActiveLeases env (leases d1) w3 of
             (Some err, w4) \<Rightarrow> (Inl err, w4)
           | (None, w4) \<Rightarrow> (Inr d1, w4)))"
  using assms by (simp add: newDHCP_def)

lemmas startup_eval =
  env3_def world3_def lease2_def lease3_def LoadSavedLeases_def resolvedLink_def
  reloaded_def kept_def dropped_def queryFailed_def

lemma LoadSavedLeases_run3:
  "LoadSavedLeases env3 10 62 False world3 = (Inr [lease0, lease2, lease3], world3)"
  by (simp add: startup_eval run_eval)

lemma newDHCP_run3:
  "fst (newDHCP env3 10 62 False world3)
     = Inr (dhcp0\<lparr>leases := [''c1/net/eth0'' \<mapsto> lease0, ''c3/net/eth0'' \<mapsto> lease3]\<rparr>)"
  unfolding newDHCP_loaded [OF LoadSavedLeases_run3]
  by (simp add: keepLease_eq PersistActiveLeases_eq emit_def startup_eval run_eval)

lemma newDHCP_registry:
  assumes "LoadSavedLeases env tmo rmax bc w = (Inr vals, w1)"
  shows "((\<exists>v\<in>set vals. queryFailed env v) \<longrightarrow>
            (\<exists>err. fst (newDHCP env tmo rmax bc w) = Inl err))
       \<and> (newDHCP env tmo rmax bc w = (Inr dhcp, w') \<longrightarrow>
            leases dhcp = inserted (filter (kept env) vals) Map.empty
          \<and> started (events w') = started (events w) @ filter (kept env) vals
          \<and> (\<forall>v\<in>set vals. kept env v \<or> dropped env v)
          \<and> (\<forall>v\<in>set vals. dropped env v \<longrightarrow> \<not> kept env v \<and> v \<notin> ran (leases dhcp))
          \<and> (\<forall>v\<in>set vals. kept env v \<longrightarrow> clientID v \<in> dom (leases dhcp))
          \<and> (distinct (map clientID vals) \<longrightarrow>
               (\<forall>v\<in>set vals. kept env v \<longrightarrow> leases dhcp (clientID v) = Some v)))"
proof (intro conjI impI)
  let ?d0 = "\<lparr> leases = Map.empty, hostNetnsPrefix = '''', clientTimeout = tmo,
               clientResendMax = rmax, broadcastD = False \<rparr>"
  note eq = newDHCP_loaded [OF assms]
  have w1: "started (events w1) = started (events w)"
    using LoadSavedLeases_started [of env tmo rmax bc w] assms by simp
  {
    assume "\<exists>v\<in>set vals. queryFailed env v"
    from reconcile_queryFailed [OF this, of ?d0 w1]
    obtain err d1 w3 where "reconcile env vals ?d0 w1 = (Some err, d1, w3)"
      by (cases "reconcile env vals ?d0 w1") auto
    then show "\<exists>err. fst (newDHCP env tmo rmax bc w) = Inl err"
      by (simp add: eq)
  }
  assume ok: "newDHCP env tmo rmax bc w = (Inr dhcp, w')"
  obtain r d1 w3 where rec: "reconcile env vals ?d0 w1 = (r, d1, w3)"
    by (cases "reconcile env vals ?d0 w1") auto
  with ok have r: "r = None"
    by (cases r) (simp_all add: eq)
  with ok rec have d1: "d1 = dhcp" and w': "w' = snd (PersistActiveLeases env (leases d1) w3)"
    by (auto simp: eq split: prod.splits option.splits)
  note s = reconcile_success [OF rec [unfolded r d1]]
  have l: "leases dhcp = inserted (filter (kept env) vals) Map.empty"
    using s by simp
  show "leases dhcp = inserted (filter (kept env) vals) Map.empty"
    by (rule l)
  show "started (events w') = started (events w) @ filter (kept env) vals"
    using s by (simp add: w' PersistActiveLeases_started w1)
  show "\<forall>v\<in>set vals. kept env v \<or> dropped env v"
    using s by blast
  show "\<forall>v\<in>set vals. dropped env v \<longrightarrow> \<not> kept env v \<and> v \<notin> ran (leases dhcp)"
  proof (intro ballI impI)
    fix v assume "v \<in> set vals" and dr: "dropped env v"
    then have nk: "\<not> kept env v" by (simp add: dropped_not_kept)
    have "ran (leases dhcp) \<subseteq> set (filter (kept env) vals)"
      using ran_inserted [of "filter (kept env) vals" Map.empty] by (simp add: l)
    with nk show "\<not> kept env v \<and> v \<notin> ran (leases dhcp)" by auto
  qed
  show "\<forall>v\<in>set vals. kept env v \<longrightarrow> clientID v \<in> dom (leases dhcp)"
    by (auto simp: l dom_inserted)
  assume dist: "distinct (map clientID vals)"
  show "\<forall>v\<in>set vals. kept env v \<longrightarrow> leases dhcp (clientID v) = Some v"
  proof (intro ballI impI)
    fix v assume "v \<in> set vals" and "kept env v"
    then have "v \<in> set (filter (kept env) vals)" by simp
    moreover have "distinct (map clientID (filter (kept env) vals))"
      using dist by (simp add: distinct_map_filter)
    ultimately show "leases dhcp (clientID v) = Some v"
      unfolding l by (rule inserted_distinct [rotated])
  qed
qed

lemma reconcile_complete:
  assumes "\<forall>v\<in>set vals. kept env v \<or> dropped env v"
    and "\<forall>v\<in>set vals. kept env v \<longrightarrow> StartMaintaining env v = None"
  shows "fst (reconcile env vals d w) = None"
  using assms
proof (induction vals arbitrary: d w)
  case Nil
  then show ?case by simp
next
  case (Cons v vals)
  have rest: "fst (reconcile env vals d' w') = None" for d' w'
    using Cons.prems by (intro Cons.IH) simp_all
  show ?case
  proof (cases "kept env v")
    case True
    with Cons.prems have "StartMaintaining env v = None" by simp
    then show ?thesis
      unfolding reconcile_step_kept [OF True] by (simp add: rest)
  next
    case False
    with Cons.prems have dr: "dropped env v" by simp
    show ?thesis
      unfolding reconcile_step_dropped [OF dr] by (rule rest)
  qed
qed

lemma newDHCP_complete:
  assumes "LoadSavedLeases env tmo rmax bc w = (Inr vals, w1)"
    and "\<forall>v\<in>set vals. kept env v \<or> dropped env v"
    and "\<forall>v\<in>set vals. kept env v \<longrightarrow> StartMaintaining env v = None"
    and "persistError env (inserted (filter (kept env) vals) Map.empty) = None"
  shows "\<exists>dhcp w'. newDHCP env tmo rmax bc w = (Inr dhcp, w')"
proof -
  let ?d0 = "\<lparr> leases = Map.empty, hostNetnsPrefix = '''', clientTimeout = tmo,
               clientResendMax = rmax, broadcastD = False \<rparr>"
  obtain r d1 w3 where rec: "reconcile env vals ?d0 w1 = (r, d1, w3)"
    by (cases "reconcile env vals ?d0 w1") auto
  with reconcile_complete [OF assms(2,3), of ?d0 w1] have r: "r = None"
    by simp
  from reconcile_success [OF rec [unfolded r]]
  have "leases d1 = inserted (filter (kept env) vals) Map.empty"
    by simp
  with assms(4) have "fst (PersistActiveLeases env (leases d1) w3) = None"
    by (simp add: PersistActiveLeases_eq)
  then have "newDHCP env tmo rmax bc w = (Inr d1, snd (PersistActiveLeases env (leases d1) w3))"
    unfolding newDHCP_loaded [OF assms(1)] rec r
    by (cases "PersistActiveLeases env (leases d1) w3") simp
  then show ?thesis by blast
qed

text \<open>
  C3. Let \<open>LoadSavedLeases\<close> return the leases \<open>vals\<close> at startup. A lease is kept when
  it carries no workload identity or the orchestrator finds its workload, and dropped
  when it carries one that the orchestrator reports not found.

  The loop of \<open>newDHCP\<close> treats the lease at its head as follows. A dropped lease is
  not inserted and the loop continues with the remaining leases and the same registry.
  A kept lease is inserted into the registry under its client id and its maintainer is
  started; when that succeeds the loop continues with the remaining leases. A lease
  whose query fails with an error other than not-found ends the loop with an error.

  Hence: if the query fails for some loaded lease, \<open>newDHCP\<close> returns an error. If no
  query fails, the maintainer of every kept lease starts and the records of the
  registry can be encoded, \<open>newDHCP\<close> returns a daemon. And if \<open>newDHCP\<close> returns a
  daemon, then every loaded lease is kept or dropped, the registry is the result of
  inserting the kept leases, in order, under their client ids, and the maintainers
  started are those of the kept leases, in order: a dropped lease is not in the
  registry and its maintainer is not started, the client id of a kept lease is a key of
  the registry, and the registry maps it to that lease when no two loaded leases share
  a client id.
\<close>

theorem newDHCP_reconcile:
  assumes "LoadSavedLeases env tmo rmax bc w = (Inr vals, w1)"
  shows "((\<exists>v\<in>set vals. queryFailed env v) \<longrightarrow>
            (\<exists>err. fst (newDHCP env tmo rmax bc w) = Inl err))
       \<and> (newDHCP env tmo rmax bc w = (Inr dhcp, w') \<longrightarrow>
            leases dhcp = inserted (filter (kept env) vals) Map.empty
          \<and> started (events w') = started (events w) @ filter (kept env) vals
          \<and> (\<forall>v\<in>set vals. kept env v \<or> dropped env v)
          \<and> (\<forall>v\<in>set vals. dropped env v \<longrightarrow> \<not> kept env v \<and> v \<notin> ran (leases dhcp))
          \<and> (\<forall>v\<in>set vals. kept env v \<longrightarrow> clientID v \<in> dom (leases dhcp))
          \<and> (distinct (map clientID vals) \<longrightarrow>
               (\<forall>v\<in>set vals. kept env v \<longrightarrow> leases dhcp (clientID v) = Some v)))
       \<and> ((\<forall>v\<in>set vals. kept env v \<or> dropped env v)
            \<and> (\<forall>v\<in>set vals. kept env v \<longrightarrow> StartMaintaining env v = None)
            \<and> persistError env (inserted (filter (kept env) vals) Map.empty) = None \<longrightarrow>
            (\<exists>dhcp' w''. newDHCP env tmo rmax bc w = (Inr dhcp', w'')))
       \<and> (dropped env v \<longrightarrow>
            reconcile env (v # rest) d0 w0
              = reconcile env rest d0
                  (emit [PodsGetCalled (k8sNamespace v) (k8sPodName v),
                         Printed (PodNotFoundRemoving (k8sPodName v))] w0))
       \<and> (kept env v \<and> StartMaintaining env v = None \<longrightarrow>
            reconcile env (v # rest) d0 w0
              = reconcile env rest (d0\<lparr>leases := (leases d0)(clientID v \<mapsto> v)\<rparr>)
                  (emit ((if k8sPodName v \<noteq> ''''
                          then [PodsGetCalled (k8sNamespace v) (k8sPodName v)] else [])
                         @ [MuxLock, LeasesSet (clientID v), MuxUnlock,
                            StartMaintainingCalled v]) w0))
       \<and> (queryFailed env v \<longrightarrow> (\<exists>err. fst (reconcile env (v # rest) d0 w0) = Some err))"
proof -
  have step_dropped: "dropped env v \<longrightarrow>
            reconcile env (v # rest) d0 w0
              = reconcile env rest d0
                  (emit [PodsGetCalled (k8sNamespace v) (k8sPodName v),
                         Printed (PodNotFoundRemoving (k8sPodName v))] w0)"
  proof
    assume dr: "dropped env v"
    show "reconcile env (v # rest) d0 w0
              = reconcile env rest d0
                  (emit [PodsGetCalled (k8sNamespace v) (k8sPodName v),
                         Printed (PodNotFoundRemoving (k8sPodName v))] w0)"
      unfolding reconcile_step_dropped [OF dr] emit_def by simp
  qed
  have step_kept: "kept env v \<and> StartMaintaining env v = None \<longrightarrow>
            reconcile env (v # rest) d0 w0
              = reconcile env rest (d0\<lparr>leases := (leases d0)(clientID v \<mapsto> v)\<rparr>)
                  (emit ((if k8sPodName v \<noteq> ''''
                          then [PodsGetCalled (k8sNamespace v) (k8sPodName v)] else [])
                         @ [MuxLock, LeasesSet (clientID v), MuxUnlock,
                            StartMaintainingCalled v]) w0)"
  proof
    assume k: "kept env v \<and> StartMaintaining env v = None"
    then have k1: "kept env v" and k2: "StartMaintaining env v = None"
      by simp_all
    show "reconcile env (v # rest) d0 w0
              = reconcile env rest (d0\<lparr>leases := (leases d0)(clientID v \<mapsto> v)\<rparr>)
                  (emit ((if k8sPodName v \<noteq> ''''
                          then [PodsGetCalled (k8sNamespace v) (k8sPodName v)] else [])
                         @ [MuxLock, LeasesSet (clientID v), MuxUnlock,
                            StartMaintainingCalled v]) w0)"
      unfolding reconcile_step_kept [OF k1] k2 emit_def by simp
  qed
  have step_failed: "queryFailed env v \<longrightarrow>
            (\<exists>err. fst (reconcile env (v # rest) d0 w0) = Some err)"
    using reconcile_step_queryFailed [of env v rest d0 w0] by auto
  have complete: "(\<forall>v\<in>set vals. kept env v \<or> dropped env v)
            \<and> (\<forall>v\<in>set vals. kept env v \<longrightarrow> StartMaintaining env v = None)
            \<and> persistError env (inserted (filter (kept env) vals) Map.empty) = None \<longrightarrow>
            (\<exists>dhcp' w''. newDHCP env tmo rmax bc w = (Inr dhcp', w''))"
    using newDHCP_complete [OF assms] by blast
  show ?thesis
    using newDHCP_registry [OF assms, of dhcp w'] complete step_dropped step_kept step_failed
    by blast
qed

theorem newDHCP_reconcile_witness:
  "LoadSavedLeases env3 10 62 False world3 = (Inr [lease0, lease2, lease3], world3)
   \<and> kept env3 lease0 \<and> dropped env3 lease2 \<and> kept env3 lease3
   \<and> StartMaintaining env3 lease0 = None \<and> StartMaintaining env3 lease3 = None
   \<and> persistError env3 (inserted (filter (kept env3) [lease0, lease2, lease3]) Map.empty) = None
   \<and> (\<exists>dhcp' w''. newDHCP env3 10 62 False world3 = (Inr dhcp', w''))
   \<and> reconcile env3 [lease2, lease3] dhcp1 world3
       = reconcile env3 [lease3] dhcp1
           (emit [PodsGetCalled ''default'' ''web-1'', Printed (PodNotFoundRemoving ''web-1'')]
              world3)
   \<and> distinct (map clientID [lease0, lease2, lease3])
   \<and> fst (newDHCP env3 10 62 False world3)
       = Inr (dhcp0\<lparr>leases := [''c1/net/eth0'' \<mapsto> lease0, ''c3/net/eth0'' \<mapsto> lease3]\<rparr>)
   \<and> started (events (snd (newDHCP env3 10 62 False world3))) = [lease0, lease3]
   \<and> lease2 \<notin> ran [''c1/net/eth0'' \<mapsto> lease0, ''c3/net/eth0'' \<mapsto> lease3]
   \<and> LoadSavedLeases (env0 Written (PodGetFailed ''connection refused'') decoded) 10 62 False
        world1 = (Inr [lease0], world1)
   \<and> queryFailed (env0 Written (PodGetFailed ''connection refused'') decoded) lease0
   \<and> (\<exists>err. fst (newDHCP (env0 Written (PodGetFailed ''connection refused'') decoded)
                   10 62 False world1) = Inl err)"
proof -
  let ?F = "env0 Written (PodGetFailed ''connection refused'') decoded"
  let ?d = "dhcp0\<lparr>leases := [''c1/net/eth0'' \<mapsto> lease0, ''c3/net/eth0'' \<mapsto> lease3]\<rparr>"
  have k: "kept env3 lease0" "dropped env3 lease2" "kept env3 lease3"
    by (simp_all add: startup_eval env0_def lease0_def)
  have sm: "StartMaintaining env3 v = None" for v
    by (simp add: env3_def env0_def)
  have pe: "persistError env3 ls = None" for ls
    by (simp add: persistError_def env3_def env0_def)
  have dist: "distinct (map clientID [lease0, lease2, lease3])"
    by (simp add: lease0_def lease2_def lease3_def)
  have lf: "LoadSavedLeases ?F 10 62 False world1 = (Inr [lease0], world1)"
    by (simp add: startup_eval run_eval)
  have qf: "queryFailed ?F lease0"
    by (simp add: queryFailed_def env0_def lease0_def)
  obtain w' where n: "newDHCP env3 10 62 False world3 = (Inr ?d, w')"
    using newDHCP_run3 by (cases "newDHCP env3 10 62 False world3") simp
  note t = newDHCP_reconcile
    [OF LoadSavedLeases_run3, where dhcp = ?d and w' = w' and v = lease2 and rest = "[lease3]"
       and ?d0.0 = dhcp1 and ?w0.0 = world3]
  have all: "\<forall>v\<in>set [lease0, lease2, lease3]. kept env3 v \<or> dropped env3 v"
    using k by simp
  have ex: "\<exists>dhcp' w''. newDHCP env3 10 62 False world3 = (Inr dhcp', w'')"
    using t all sm pe by blast
  have names: "k8sNamespace lease2 = ''default''" "k8sPodName lease2 = ''web-1''"
    by (simp_all add: lease2_def lease0_def)
  have "reconcile env3 (lease2 # [lease3]) dhcp1 world3
       = reconcile env3 [lease3] dhcp1
           (emit [PodsGetCalled (k8sNamespace lease2) (k8sPodName lease2),
                  Printed (PodNotFoundRemoving (k8sPodName lease2))] world3)"
    using t k(2) by blast
  then have step: "reconcile env3 [lease2, lease3] dhcp1 world3
       = reconcile env3 [lease3] dhcp1
           (emit [PodsGetCalled ''default'' ''web-1'', Printed (PodNotFoundRemoving ''web-1'')]
              world3)"
    unfolding names .
  have flt: "filter (kept env3) [lease0, lease2, lease3] = [lease0, lease3]"
    using k by (simp add: dropped_not_kept)
  have e0: "started (events world3) = []"
    by (simp add: world3_def)
  have "started (events w')
          = started (events world3) @ filter (kept env3) [lease0, lease2, lease3]"
    using t n by blast
  then have st: "started (events (snd (newDHCP env3 10 62 False world3))) = [lease0, lease3]"
    unfolding flt e0 by (simp add: n)
  have "\<forall>v\<in>set [lease0, lease2, lease3].
          dropped env3 v \<longrightarrow> \<not> kept env3 v \<and> v \<notin> ran (leases ?d)"
    using t n by blast
  with k(2) have "lease2 \<notin> ran (leases ?d)"
    by simp
  then have nr: "lease2 \<notin> ran [''c1/net/eth0'' \<mapsto> lease0, ''c3/net/eth0'' \<mapsto> lease3]"
    by simp
  have ab: "\<exists>err. fst (newDHCP ?F 10 62 False world1) = Inl err"
    using newDHCP_reconcile [OF lf, THEN conjunct1] qf by simp
  show ?thesis
    using LoadSavedLeases_run3 k sm pe ex step dist newDHCP_run3 st nr lf qf ab by blast
qed


end
